theory Spec2Isabelle
  imports Main "HOL-Library.AList" "HOL-Library.Word"
begin

section \<open>The subscription registry (ws/lending\_markets.go)\<close>

text \<open>
  A connection is a pointer \<open>*Client\<close>: \<open>None\<close> is the nil pointer, \<open>Some k\<close> the
  connection at address \<open>k\<close>. The two Go maps of \<open>LendingMarketsSocket\<close> are association
  lists read with \<open>map_of\<close> and written with \<open>AList.update\<close> and \<open>AList.delete\<close>; the
  order of a list is one of the iteration orders Go may choose. The two mutexes guard
  the maps against other goroutines and do not change what one call computes.
\<close>

type_synonym client = "nat option"

record lendingMarketsSocket =
  subscriptions :: "(string \<times> (client \<times> bool) list) list"
  subscriptionsList :: "(client \<times> string list) list"

definition NewLendingMarketsSocket :: lendingMarketsSocket where
  "NewLendingMarketsSocket = \<lparr>subscriptions = [], subscriptionsList = []\<rparr>"

text \<open>Reading \<open>s.subscriptions[channelID]\<close>: a missing key gives the nil map, which reads as empty.\<close>

definition channelSubs :: "(string \<times> (client \<times> bool) list) list \<Rightarrow> string \<Rightarrow> (client \<times> bool) list" where
  "channelSubs subs channelID = (case map_of subs channelID of None \<Rightarrow> [] | Some m \<Rightarrow> m)"

text \<open>Reading \<open>s.subscriptions[channelID][c]\<close>: a missing key gives \<open>false\<close>.\<close>

definition subscribed :: "lendingMarketsSocket \<Rightarrow> string \<Rightarrow> client \<Rightarrow> bool" where
  "subscribed s channelID c =
     (case map_of (channelSubs (subscriptions s) channelID) c of None \<Rightarrow> False | Some b \<Rightarrow> b)"

definition Subscribe :: "string \<Rightarrow> client \<Rightarrow> lendingMarketsSocket \<Rightarrow> string + lendingMarketsSocket" where
  "Subscribe channelID c s =
     (if c = None then Inl ''No connection found''
      else
        let s1 = (if map_of (subscriptions s) channelID = None
                  then s\<lparr>subscriptions := AList.update channelID [] (subscriptions s)\<rparr>
                  else s);
            s2 = s1\<lparr>subscriptions :=
                     AList.update channelID
                       (AList.update c True (channelSubs (subscriptions s1) channelID))
                       (subscriptions s1)\<rparr>;
            s3 = (if map_of (subscriptionsList s2) c = None
                  then s2\<lparr>subscriptionsList := AList.update c [] (subscriptionsList s2)\<rparr>
                  else s2);
            s4 = s3\<lparr>subscriptionsList :=
                     AList.update c
                       ((case map_of (subscriptionsList s3) c of None \<Rightarrow> [] | Some ids \<Rightarrow> ids)
                          @ [channelID])
                       (subscriptionsList s3)\<rparr>
        in Inr s4)"

definition UnsubscribeChannel :: "string \<Rightarrow> client \<Rightarrow> lendingMarketsSocket \<Rightarrow> lendingMarketsSocket" where
  "UnsubscribeChannel channelID c s =
     (if subscribed s channelID c
      then
        let s1 = s\<lparr>subscriptions :=
                    AList.update channelID
                      (AList.update c False (channelSubs (subscriptions s) channelID))
                      (subscriptions s)\<rparr>
        in s1\<lparr>subscriptions :=
                 AList.update channelID
                   (AList.delete c (channelSubs (subscriptions s1) channelID))
                   (subscriptions s1)\<rparr>
      else s)"

definition Unsubscribe :: "client \<Rightarrow> lendingMarketsSocket \<Rightarrow> lendingMarketsSocket" where
  "Unsubscribe c s =
     (case map_of (subscriptionsList s) c of
        None \<Rightarrow> s
      | Some channelIDs \<Rightarrow> foldl (\<lambda>s' id. UnsubscribeChannel id c s') s channelIDs)"

definition getSubscriptions :: "lendingMarketsSocket \<Rightarrow> (string \<times> (client \<times> bool) list) list" where
  "getSubscriptions s = subscriptions s"

text \<open>
  \<open>BroadcastMessage\<close> returns the deliveries it makes: one \<open>SendUpdateMessage(c, p)\<close> for
  every entry of the channel whose flag is true. It always returns a nil error.
\<close>

definition BroadcastMessage :: "string \<Rightarrow> 'p \<Rightarrow> lendingMarketsSocket \<Rightarrow> (client \<times> 'p) list" where
  "BroadcastMessage channelID p s =
     map (\<lambda>e. (fst e, p)) (filter snd (channelSubs (getSubscriptions s) channelID))"

subsection \<open>Sequences of registry calls\<close>

datatype registryCall =
    CallSubscribe string client
  | CallUnsubscribeChannel string client
  | CallUnsubscribe client

text \<open>A failed \<open>Subscribe\<close> returns its error before touching the maps.\<close>

fun call :: "lendingMarketsSocket \<Rightarrow> registryCall \<Rightarrow> lendingMarketsSocket" where
  "call s (CallSubscribe channelID c) =
     (case Subscribe channelID c s of Inl _ \<Rightarrow> s | Inr s' \<Rightarrow> s')"
| "call s (CallUnsubscribeChannel channelID c) = UnsubscribeChannel channelID c s"
| "call s (CallUnsubscribe c) = Unsubscribe c s"

definition calls :: "registryCall list \<Rightarrow> lendingMarketsSocket \<Rightarrow> lendingMarketsSocket" where
  "calls cs s = foldl call s cs"

text \<open>Presence in the inverse index, and holding an active entry of the forward index.\<close>

definition inInverseIndex :: "lendingMarketsSocket \<Rightarrow> client \<Rightarrow> bool" where
  "inInverseIndex s c = (map_of (subscriptionsList s) c \<noteq> None)"

definition joined :: "lendingMarketsSocket \<Rightarrow> client \<Rightarrow> string list" where
  "joined s c = (case map_of (subscriptionsList s) c of None \<Rightarrow> [] | Some ids \<Rightarrow> ids)"

definition holdsActiveEntry :: "lendingMarketsSocket \<Rightarrow> client \<Rightarrow> bool" where
  "holdsActiveEntry s c = list_ex (\<lambda>channelID. subscribed s channelID c) (map fst (subscriptions s))"

text \<open>Every inner map of the forward index has one entry per connection.\<close>

definition wellFormed :: "lendingMarketsSocket \<Rightarrow> bool" where
  "wellFormed s = list_all (\<lambda>e. distinct (map fst (snd e))) (subscriptions s)"


text \<open>The invariant behind the registry proofs: an active pair is listed in the inverse index.\<close>

definition listed :: "lendingMarketsSocket \<Rightarrow> bool" where
  "listed s = (\<forall>channelID c. subscribed s channelID c \<longrightarrow> channelID \<in> set (joined s c))"

section \<open>The lending order service (package services)\<close>

subsection \<open>Data\<close>

text \<open>
  \<open>common.Address\<close> and \<open>common.Hash\<close> are kept as their hexadecimal renderings, so
  \<open>Hash.Hex()\<close> is the hash itself. \<open>Term\<close> and \<open>Interest\<close> are \<open>uint64\<close>. Two Go
  structs may share a field name; here the fields of \<open>EngineResponse\<close> carry the prefix
  \<open>Res\<close>, those of \<open>Notification\<close> the prefix \<open>Notification\<close> where they would clash.
\<close>

type_synonym address = string
type_synonym hash = string
type_synonym bytes = "8 word list"

record lendingOrder =
  UserAddress :: address
  Hash :: hash
  Side :: string
  Term :: "64 word"
  LendingToken :: address
  Interest :: "64 word"
  Status :: string

record engineResponse =
  ResStatus :: string
  ResLendingOrder :: "lendingOrder option"

record lendingOrderChangeEvent =
  OperationType :: string
  FullDocument :: "lendingOrder option"

datatype notificationType = TypeLog
datatype notificationStatus = StatusUnread

record message =
  MessageType :: string
  Description :: string

record notification =
  Recipient :: address
  Message :: message
  NotificationType :: notificationType
  NotificationStatus :: notificationStatus

text \<open>The trade document is only passed on, never read.\<close>

datatype lendingTrade = LendingTrade hash

record brokerMessage =
  Type :: string
  Data :: bytes

text \<open>
  One entry of a snapshot list: the Go map with keys \<open>interest\<close> and \<open>amount\<close>. The
  decimal renderings (\<open>strconv.FormatUint\<close>, \<open>big.Int.String\<close>) are left as the numbers.
\<close>

record bookUpdate =
  interest :: "64 word"
  amount :: int

record lendingOrderBook =
  Name :: string
  Borrow :: "bookUpdate list"
  Lend :: "bookUpdate list"

subsection \<open>Constants\<close>

definition LENDING_EVENT :: string where "LENDING_EVENT = ''ORDER''"
definition REPAY_EVENT :: string where "REPAY_EVENT = ''REPAY''"
definition TOPUP_EVENT :: string where "TOPUP_EVENT = ''TOPUP''"
definition RECALL_EVENT :: string where "RECALL_EVENT = ''RECALL''"

text \<open>
  Modelled from the spec: the constants of package \<open>types\<close> are not among the sources.
  Each engine status is the string that spells its name (the source itself writes the
  literal \<open>"LENDING_ORDER_CANCELLED"\<close> beside \<open>types.LENDING_ORDER_CANCELLED\<close>), and each
  storage status is the name the status table of the specification gives it.
\<close>

definition LENDING_ORDER_ADDED :: string where "LENDING_ORDER_ADDED = ''LENDING_ORDER_ADDED''"
definition LENDING_ORDER_CANCELLED :: string where "LENDING_ORDER_CANCELLED = ''LENDING_ORDER_CANCELLED''"
definition LENDING_ORDER_REJECTED :: string where "LENDING_ORDER_REJECTED = ''LENDING_ORDER_REJECTED''"
definition LENDING_ORDER_PARTIALLY_FILLED :: string where
  "LENDING_ORDER_PARTIALLY_FILLED = ''LENDING_ORDER_PARTIALLY_FILLED''"
definition LENDING_ORDER_FILLED :: string where "LENDING_ORDER_FILLED = ''LENDING_ORDER_FILLED''"
definition LENDING_ORDER_REPAYED :: string where "LENDING_ORDER_REPAYED = ''LENDING_ORDER_REPAYED''"
definition LENDING_ORDER_TOPUPED :: string where "LENDING_ORDER_TOPUPED = ''LENDING_ORDER_TOPUPED''"
definition LENDING_ORDER_RECALLED :: string where "LENDING_ORDER_RECALLED = ''LENDING_ORDER_RECALLED''"
definition LENDING_ORDER_TOPUP_REJECTED :: string where
  "LENDING_ORDER_TOPUP_REJECTED = ''LENDING_ORDER_TOPUP_REJECTED''"
definition LENDING_ORDER_REPAY_REJECTED :: string where
  "LENDING_ORDER_REPAY_REJECTED = ''LENDING_ORDER_REPAY_REJECTED''"
definition LENDING_ORDER_RECALL_REJECTED :: string where
  "LENDING_ORDER_RECALL_REJECTED = ''LENDING_ORDER_RECALL_REJECTED''"
definition ERROR_STATUS :: string where "ERROR_STATUS = ''ERROR''"

definition LendingStatusOpen :: string where "LendingStatusOpen = ''OPEN''"
definition LendingStatusCancelled :: string where "LendingStatusCancelled = ''CANCELLED''"
definition LendingStatusFilled :: string where "LendingStatusFilled = ''FILLED''"
definition LendingStatusPartialFilled :: string where "LendingStatusPartialFilled = ''PARTIAL_FILLED''"
definition LendingStatusRepay :: string where "LendingStatusRepay = ''REPAY''"
definition LendingStatusTopup :: string where "LendingStatusTopup = ''TOPUP''"
definition LendingStatusRecall :: string where "LendingStatusRecall = ''RECALL''"
definition LendingStatusRejected :: string where "LendingStatusRejected = ''REJECTED''"

definition BORROW :: string where "BORROW = ''BORROW''"

subsection \<open>Collaborators, effects and state\<close>

text \<open>
  The collaborators outside the sources (storage, broker, decoder, channel naming) are
  the fields of \<open>env\<close>; a Go \<open>error\<close> is \<open>string option\<close>, \<open>None\<close> for nil. What the
  service does to them and to its connections is recorded, in order, in \<open>trace\<close>.
\<close>

record env =
  notificationDaoCreate :: "notification \<Rightarrow> notification list \<times> string option"
  lendingTradeDaoGetByHash :: "hash \<Rightarrow> lendingTrade option"
  GetLendingOrderBookInterest ::
    "64 word \<Rightarrow> address \<Rightarrow> 64 word \<Rightarrow> string \<Rightarrow> int option \<times> string option"
  GetLendingOrderBookChannelID :: "64 word \<Rightarrow> address \<Rightarrow> string"
  PublishLendingOrderResponse :: "engineResponse \<Rightarrow> string option"
  jsonUnmarshal :: "bytes \<Rightarrow> string + lendingOrder"
  AddNewLendingOrder :: "lendingOrder \<Rightarrow> string option"
  CancelLendingOrder :: "lendingOrder \<Rightarrow> string option"

datatype payload =
    OrderPayload lendingOrder
  | NotificationsPayload "notification list"
  | TradePayload "lendingTrade option"

datatype effect =
    DaoCreate notification
  | SendLendingOrderMessage string address payload
  | SendNotificationMessage string address payload
  | TradeGetByHash hash
  | LoggerError string
  | LoggerInfo string
  | Lock
  | Unlock
  | InterestLookup "64 word" address "64 word" string
  | Broadcast string lendingOrderBook
  | Publish engineResponse
  | DaoAdd lendingOrder
  | DaoCancel lendingOrder

datatype panic = NilPointerDereference

record service =
  trace :: "effect list"
  bulkLendingOrders :: "(string \<times> (hash \<times> lendingOrder) list) list"

definition NewLendingOrderService :: service where
  "NewLendingOrderService = \<lparr>trace = [], bulkLendingOrders = []\<rparr>"

definition emit :: "effect \<Rightarrow> service \<Rightarrow> service" where
  "emit e s = s\<lparr>trace := trace s @ [e]\<rparr>"

text \<open>
  The block every notifying handler repeats: \<open>notificationDao.Create\<close> on a log
  notification for the order's user, and \<open>logger.Error\<close> when it fails.
\<close>

definition createNotification ::
  "env \<Rightarrow> lendingOrder \<Rightarrow> string \<Rightarrow> service \<Rightarrow> notification list \<times> service" where
  "createNotification env o' messageType s =
     (let n = \<lparr>Recipient = UserAddress o',
                Message = \<lparr>MessageType = messageType, Description = Hash o'\<rparr>,
                NotificationType = TypeLog, NotificationStatus = StatusUnread\<rparr>;
          s1 = emit (DaoCreate n) s
      in case notificationDaoCreate env n of
           (notifications, None) \<Rightarrow> (notifications, s1)
         | (notifications, Some err) \<Rightarrow> (notifications, emit (LoggerError err) s1))"


subsection \<open>The dispatcher's handlers\<close>

text \<open>
  A handler reads \<open>res.LendingOrder\<close> into \<open>o\<close> and dereferences it in its first
  statement, so a nil order panics before any effect. The response itself is taken to
  be a non-nil pointer.
\<close>

definition handleLendingOrderAdded :: "env \<Rightarrow> engineResponse \<Rightarrow> service \<Rightarrow> panic + service" where
  "handleLendingOrderAdded env res s =
     (case ResLendingOrder res of
        None \<Rightarrow> Inl NilPointerDereference
      | Some o' \<Rightarrow>
          let s1 = emit (SendLendingOrderMessage LENDING_ORDER_ADDED (UserAddress o') (OrderPayload o')) s;
              (notifications, s2) = createNotification env o' (ResStatus res) s1;
              s3 = emit (SendNotificationMessage (ResStatus res) (UserAddress o')
                           (NotificationsPayload notifications)) s2
          in Inr (emit (LoggerInfo ''BroadcastOrderBookUpdate Lending Added'') s3))"

definition handleLendingOrderPartialFilled :: "env \<Rightarrow> engineResponse \<Rightarrow> service \<Rightarrow> panic + service" where
  "handleLendingOrderPartialFilled env res s = Inr s"

definition handleLendingOrderFilled :: "env \<Rightarrow> engineResponse \<Rightarrow> service \<Rightarrow> panic + service" where
  "handleLendingOrderFilled env res s = Inr s"

definition handleLendingTopup :: "env \<Rightarrow> engineResponse \<Rightarrow> service \<Rightarrow> panic + service" where
  "handleLendingTopup env res s =
     (case ResLendingOrder res of
        None \<Rightarrow> Inl NilPointerDereference
      | Some o' \<Rightarrow>
          let (notifications, s1) = createNotification env o' (ResStatus res) s;
              s2 = emit (SendNotificationMessage LENDING_ORDER_TOPUPED (UserAddress o')
                           (NotificationsPayload notifications)) s1;
              lendingTrade = lendingTradeDaoGetByHash env (Hash o');
              s3 = emit (TradeGetByHash (Hash o')) s2
          in Inr (emit (SendLendingOrderMessage LENDING_ORDER_TOPUPED (UserAddress o')
                          (TradePayload lendingTrade)) s3))"

definition handleLendingRepay :: "env \<Rightarrow> engineResponse \<Rightarrow> service \<Rightarrow> panic + service" where
  "handleLendingRepay env res s =
     (case ResLendingOrder res of
        None \<Rightarrow> Inl NilPointerDereference
      | Some o' \<Rightarrow>
          let (notifications, s1) = createNotification env o' (ResStatus res) s;
              s2 = emit (SendNotificationMessage LENDING_ORDER_REPAYED (UserAddress o')
                           (NotificationsPayload notifications)) s1;
              lendingTrade = lendingTradeDaoGetByHash env (Hash o');
              s3 = emit (TradeGetByHash (Hash o')) s2
          in Inr (emit (SendLendingOrderMessage LENDING_ORDER_REPAYED (UserAddress o')
                          (TradePayload lendingTrade)) s3))"

definition handleLendingRecall :: "env \<Rightarrow> engineResponse \<Rightarrow> service \<Rightarrow> panic + service" where
  "handleLendingRecall env res s =
     (case ResLendingOrder res of
        None \<Rightarrow> Inl NilPointerDereference
      | Some o' \<Rightarrow>
          let s1 = emit (SendLendingOrderMessage LENDING_ORDER_RECALLED (UserAddress o') (OrderPayload o')) s;
              (notifications, s2) = createNotification env o' (ResStatus res) s1;
              s3 = emit (SendNotificationMessage LENDING_ORDER_RECALLED (UserAddress o')
                           (NotificationsPayload notifications)) s2;
              lendingTrade = lendingTradeDaoGetByHash env (Hash o');
              s4 = emit (TradeGetByHash (Hash o')) s3
          in Inr (emit (SendLendingOrderMessage LENDING_ORDER_RECALLED (UserAddress o')
                          (TradePayload lendingTrade)) s4))"

definition handleLendingReject :: "env \<Rightarrow> engineResponse \<Rightarrow> string \<Rightarrow> service \<Rightarrow> panic + service" where
  "handleLendingReject env res lendingType s =
     (case ResLendingOrder res of
        None \<Rightarrow> Inl NilPointerDereference
      | Some o' \<Rightarrow>
          let s1 = emit (SendLendingOrderMessage lendingType (UserAddress o') (OrderPayload o')) s;
              (notifications, s2) = createNotification env o' (ResStatus res) s1
          in Inr (emit (SendNotificationMessage lendingType (UserAddress o')
                          (NotificationsPayload notifications)) s2))"

definition handleLendingOrderCancelled :: "env \<Rightarrow> engineResponse \<Rightarrow> service \<Rightarrow> panic + service" where
  "handleLendingOrderCancelled env res s =
     (case ResLendingOrder res of
        None \<Rightarrow> Inl NilPointerDereference
      | Some o' \<Rightarrow>
          let (notifications, s1) = createNotification env o' ''LENDING_ORDER_CANCELLED'' s;
              s2 = emit (SendLendingOrderMessage LENDING_ORDER_CANCELLED (UserAddress o') (OrderPayload o')) s1;
              s3 = emit (SendNotificationMessage LENDING_ORDER_CANCELLED (UserAddress o')
                           (NotificationsPayload notifications)) s2
          in Inr (emit (LoggerInfo ''BroadcastOrderBookUpdate Lending Cancelled'') s3))"

definition handleLendingOrderRejected :: "env \<Rightarrow> engineResponse \<Rightarrow> service \<Rightarrow> panic + service" where
  "handleLendingOrderRejected env res s = Inr s"

definition handleEngineError :: "env \<Rightarrow> engineResponse \<Rightarrow> service \<Rightarrow> panic + service" where
  "handleEngineError env res s =
     (case ResLendingOrder res of
        None \<Rightarrow> Inl NilPointerDereference
      | Some o' \<Rightarrow>
          let (notifications, s1) = createNotification env o' LENDING_ORDER_REJECTED s;
              s2 = emit (SendLendingOrderMessage LENDING_ORDER_REJECTED (UserAddress o') (OrderPayload o')) s1;
              s3 = emit (SendNotificationMessage LENDING_ORDER_REJECTED (UserAddress o')
                           (NotificationsPayload notifications)) s2
          in Inr (emit (LoggerInfo ''BroadcastOrderBookUpdate lending rejected'') s3))"

definition handleEngineUnknownMessage :: "env \<Rightarrow> engineResponse \<Rightarrow> service \<Rightarrow> panic + service" where
  "handleEngineUnknownMessage env res s = Inr s"

subsection \<open>The bulk aggregator\<close>

text \<open>Reading \<open>s.bulkLendingOrders[id]\<close>: a missing key gives the nil map, which reads as empty.\<close>

definition bulkOf :: "service \<Rightarrow> string \<Rightarrow> (hash \<times> lendingOrder) list" where
  "bulkOf s channelID = (case map_of (bulkLendingOrders s) channelID of None \<Rightarrow> [] | Some orders \<Rightarrow> orders)"

text \<open>
  \<open>saveBulkLendingOrders\<close> computes the channel id from the order before it takes the
  lock, so a nil order panics with the lock free. Its error is always nil.
\<close>

definition saveBulkLendingOrders ::
  "env \<Rightarrow> engineResponse \<Rightarrow> service \<Rightarrow> panic + service \<times> string option" where
  "saveBulkLendingOrders env res s =
     (case ResLendingOrder res of
        None \<Rightarrow> Inl NilPointerDereference
      | Some o' \<Rightarrow>
          let channel = GetLendingOrderBookChannelID env (Term o') (LendingToken o');
              s1 = emit Lock s;
              s2 = (if map_of (bulkLendingOrders s1) channel \<noteq> None
                    then s1\<lparr>bulkLendingOrders :=
                              AList.update channel (AList.update (Hash o') o' (bulkOf s1 channel))
                                (bulkLendingOrders s1)\<rparr>
                    else
                      let s1' = s1\<lparr>bulkLendingOrders := AList.update channel [] (bulkLendingOrders s1)\<rparr>
                      in s1'\<lparr>bulkLendingOrders :=
                                AList.update channel (AList.update (Hash o') o' (bulkOf s1' channel))
                                  (bulkLendingOrders s1')\<rparr>)
          in Inr (emit Unlock s2, None))"

text \<open>The inner loop of the flush, over the orders pending on one channel.\<close>

fun ordersLoop ::
  "env \<Rightarrow> (hash \<times> lendingOrder) list \<Rightarrow> bookUpdate list \<Rightarrow> bookUpdate list \<Rightarrow> service
     \<Rightarrow> bookUpdate list \<times> bookUpdate list \<times> service" where
  "ordersLoop env [] borrow lend s = (borrow, lend, s)"
| "ordersLoop env (e # es) borrow lend s =
     (let o' = snd e;
          side = Side o';
          (amount, err) = GetLendingOrderBookInterest env (Term o') (LendingToken o') (Interest o') side;
          s1 = emit (InterestLookup (Term o') (LendingToken o') (Interest o') side) s;
          s2 = (case err of None \<Rightarrow> s1 | Some e' \<Rightarrow> emit (LoggerError e') s1);
          amount' = (case amount of None \<Rightarrow> 0 | Some a \<Rightarrow> a);
          update = \<lparr>interest = Interest o', amount = amount'\<rparr>
      in if side = BORROW
         then ordersLoop env es (borrow @ [update]) lend s2
         else ordersLoop env es borrow (lend @ [update]) s2)"

text \<open>The outer loop of the flush, over the channels of the buffer.\<close>

fun channelsLoop :: "env \<Rightarrow> (string \<times> (hash \<times> lendingOrder) list) list \<Rightarrow> service \<Rightarrow> service" where
  "channelsLoop env [] s = s"
| "channelsLoop env (e # es) s =
     (let p = fst e; orders = snd e
      in if length orders \<le> 0 then channelsLoop env es s
         else
           let (borrow, lend, s1) = ordersLoop env orders [] [] s
           in channelsLoop env es
                (emit (Broadcast p \<lparr>Name = p, Borrow = borrow, Lend = lend\<rparr>) s1))"

text \<open>The flush: lock, iterate, replace the buffer by an empty map; the deferred unlock runs last.\<close>

definition processBulkLendingOrders :: "env \<Rightarrow> service \<Rightarrow> service" where
  "processBulkLendingOrders env s =
     (let s1 = emit Lock s;
          s2 = channelsLoop env (bulkLendingOrders s1) s1;
          s3 = s2\<lparr>bulkLendingOrders := []\<rparr>
      in emit Unlock s3)"

subsection \<open>The dispatcher\<close>

definition dispatch :: "env \<Rightarrow> engineResponse \<Rightarrow> service \<Rightarrow> panic + service" where
  "dispatch env res s =
     (if ResStatus res = LENDING_ORDER_ADDED then handleLendingOrderAdded env res s
      else if ResStatus res = LENDING_ORDER_CANCELLED then handleLendingOrderCancelled env res s
      else if ResStatus res = LENDING_ORDER_REJECTED then handleLendingOrderRejected env res s
      else if ResStatus res = LENDING_ORDER_PARTIALLY_FILLED then handleLendingOrderPartialFilled env res s
      else if ResStatus res = LENDING_ORDER_FILLED then handleLendingOrderFilled env res s
      else if ResStatus res = LENDING_ORDER_REPAYED then handleLendingRepay env res s
      else if ResStatus res = LENDING_ORDER_TOPUPED then handleLendingTopup env res s
      else if ResStatus res = LENDING_ORDER_RECALLED then handleLendingRecall env res s
      else if ResStatus res = LENDING_ORDER_TOPUP_REJECTED
        then handleLendingReject env res LENDING_ORDER_TOPUP_REJECTED s
      else if ResStatus res = LENDING_ORDER_REPAY_REJECTED
        then handleLendingReject env res LENDING_ORDER_REPAY_REJECTED s
      else if ResStatus res = LENDING_ORDER_RECALL_REJECTED
        then handleLendingReject env res LENDING_ORDER_RECALL_REJECTED s
      else if ResStatus res = ERROR_STATUS then handleEngineError env res s
      else handleEngineUnknownMessage env res s)"

text \<open>
  \<open>HandleLendingOrderResponse\<close>: the switch, then the forwarding of every response whose
  status is not \<open>ERROR\<close> into the bulk buffer; the error it returns is always nil.
\<close>

definition HandleLendingOrderResponse ::
  "env \<Rightarrow> engineResponse \<Rightarrow> service \<Rightarrow> panic + service \<times> string option" where
  "HandleLendingOrderResponse env res s =
     (case dispatch env res s of
        Inl p \<Rightarrow> Inl p
      | Inr s1 \<Rightarrow>
          if ResStatus res \<noteq> ERROR_STATUS
          then (case saveBulkLendingOrders env res s1 of
                  Inl p \<Rightarrow> Inl p
                | Inr (s2, None) \<Rightarrow> Inr (s2, None)
                | Inr (s2, Some err) \<Rightarrow> Inr (emit (LoggerError ''Save bulk order'') s2, None))
          else Inr (s1, None))"

subsection \<open>The change stream watcher\<close>

definition HandleDocumentType ::
  "env \<Rightarrow> lendingOrderChangeEvent \<Rightarrow> string \<Rightarrow> service \<Rightarrow> service \<times> string option" where
  "HandleDocumentType env ev docType s =
     (case FullDocument ev of
        None \<Rightarrow> (s, None)
      | Some doc \<Rightarrow>
          let res0 = \<lparr>ResStatus = [], ResLendingOrder = None\<rparr>;
              hit = (\<lambda>st. \<lparr>ResStatus = st, ResLendingOrder = Some doc\<rparr>);
              res =
                (if Status doc = LendingStatusOpen then hit LENDING_ORDER_ADDED
                 else if Status doc = LendingStatusCancelled then hit LENDING_ORDER_CANCELLED
                 else if Status doc = LendingStatusFilled then hit LENDING_ORDER_FILLED
                 else if Status doc = LendingStatusPartialFilled then hit LENDING_ORDER_PARTIALLY_FILLED
                 else if Status doc = LendingStatusRepay then hit LENDING_ORDER_REPAYED
                 else if Status doc = LendingStatusTopup then hit LENDING_ORDER_TOPUPED
                 else if Status doc = LendingStatusRecall then hit LENDING_ORDER_RECALLED
                 else if Status doc = LendingStatusRejected then
                   (let r1 = (if docType = REPAY_EVENT then hit LENDING_ORDER_REPAY_REJECTED else res0);
                        r2 = (if docType = TOPUP_EVENT then hit LENDING_ORDER_TOPUP_REJECTED else r1);
                        r3 = (if docType = RECALL_EVENT then hit LENDING_ORDER_RECALL_REJECTED else r2)
                    in if docType = LENDING_EVENT then hit LENDING_ORDER_REJECTED else r3)
                 else res0)
          in if ResStatus res \<noteq> []
             then (case PublishLendingOrderResponse env res of
                     None \<Rightarrow> (emit (Publish res) s, None)
                   | Some err \<Rightarrow> (emit (LoggerError err) (emit (Publish res) s), Some err))
             else (s, None))"

subsection \<open>The inbound broker messages\<close>

definition handleNewLendingOrder :: "env \<Rightarrow> bytes \<Rightarrow> service \<Rightarrow> service \<times> string option" where
  "handleNewLendingOrder env bs s =
     (case jsonUnmarshal env bs of
        Inl err \<Rightarrow> (emit (LoggerError err) s, Some err)
      | Inr o' \<Rightarrow> (emit (DaoAdd o') s, AddNewLendingOrder env o'))"

definition handleCancelLendingOrder :: "env \<Rightarrow> bytes \<Rightarrow> service \<Rightarrow> service \<times> string option" where
  "handleCancelLendingOrder env bs s =
     (case jsonUnmarshal env bs of
        Inl err \<Rightarrow> (emit (LoggerError err) s, Some err)
      | Inr o' \<Rightarrow> (emit (DaoCancel o') s, CancelLendingOrder env o'))"

definition HandleLendingOrdersCreateCancel ::
  "env \<Rightarrow> brokerMessage \<Rightarrow> service \<Rightarrow> service \<times> string option" where
  "HandleLendingOrdersCreateCancel env msg s =
     (if Type msg = ''NEW_LENDING_ORDER'' then
        (case handleNewLendingOrder env (Data msg) s of
           (s1, Some err) \<Rightarrow> (emit (LoggerError err) s1, Some err)
         | (s1, None) \<Rightarrow> (s1, None))
      else if Type msg = ''CANCEL_LENDING_ORDER'' then
        (case handleCancelLendingOrder env (Data msg) s of
           (s1, Some err) \<Rightarrow> (emit (LoggerError err) s1, Some err)
         | (s1, None) \<Rightarrow> (s1, None))
      else (emit (LoggerError ''Unknown message'') s, None))"


subsection \<open>Notions used to state the properties\<close>

text \<open>
  The status table as the specification words it (section 4.2), to be compared with
  what \<open>HandleDocumentType\<close> computes: seven storage statuses map by themselves, and
  \<open>REJECTED\<close> maps by the document type of the watcher.
\<close>

definition specStatusTable :: "(string \<times> string) list" where
  "specStatusTable =
     [(LendingStatusOpen, LENDING_ORDER_ADDED),
      (LendingStatusCancelled, LENDING_ORDER_CANCELLED),
      (LendingStatusFilled, LENDING_ORDER_FILLED),
      (LendingStatusPartialFilled, LENDING_ORDER_PARTIALLY_FILLED),
      (LendingStatusRepay, LENDING_ORDER_REPAYED),
      (LendingStatusTopup, LENDING_ORDER_TOPUPED),
      (LendingStatusRecall, LENDING_ORDER_RECALLED)]"

definition specRejectedTable :: "(string \<times> string) list" where
  "specRejectedTable =
     [(LENDING_EVENT, LENDING_ORDER_REJECTED),
      (TOPUP_EVENT, LENDING_ORDER_TOPUP_REJECTED),
      (REPAY_EVENT, LENDING_ORDER_REPAY_REJECTED),
      (RECALL_EVENT, LENDING_ORDER_RECALL_REJECTED)]"

definition specStatus :: "string \<Rightarrow> string \<Rightarrow> string option" where
  "specStatus status docType =
     (if status = LendingStatusRejected then map_of specRejectedTable docType
      else map_of specStatusTable status)"

definition watcherDocTypes :: "string list" where
  "watcherDocTypes = [LENDING_EVENT, TOPUP_EVENT, REPAY_EVENT, RECALL_EVENT]"

definition storageStatuses :: "string list" where
  "storageStatuses = LendingStatusRejected # map fst specStatusTable"

text \<open>The statuses whose handler notifies the order's user.\<close>

definition notifyingStatuses :: "string list" where
  "notifyingStatuses =
     [LENDING_ORDER_ADDED, LENDING_ORDER_CANCELLED, LENDING_ORDER_REPAYED, LENDING_ORDER_TOPUPED,
      LENDING_ORDER_RECALLED, LENDING_ORDER_TOPUP_REJECTED, LENDING_ORDER_REPAY_REJECTED,
      LENDING_ORDER_RECALL_REJECTED]"

text \<open>The statuses that have an entry in the dispatch table.\<close>

definition dispatchTable :: "string list" where
  "dispatchTable =
     [LENDING_ORDER_ADDED, LENDING_ORDER_CANCELLED, LENDING_ORDER_REJECTED,
      LENDING_ORDER_PARTIALLY_FILLED, LENDING_ORDER_FILLED, LENDING_ORDER_REPAYED,
      LENDING_ORDER_TOPUPED, LENDING_ORDER_RECALLED, LENDING_ORDER_TOPUP_REJECTED,
      LENDING_ORDER_REPAY_REJECTED, LENDING_ORDER_RECALL_REJECTED, ERROR_STATUS]"

text \<open>The log notification a handler persists for an order and a status.\<close>

definition notificationFor :: "lendingOrder \<Rightarrow> string \<Rightarrow> notification" where
  "notificationFor o' status =
     \<lparr>Recipient = UserAddress o',
      Message = \<lparr>MessageType = status, Description = Hash o'\<rparr>,
      NotificationType = TypeLog, NotificationStatus = StatusUnread\<rparr>"

text \<open>
  Whether a trace contains a storage volume lookup or a broadcast made while the
  lock is held; \<open>held\<close> is the state of the lock at the start of the trace.
\<close>

fun ioWhileLocked :: "bool \<Rightarrow> effect list \<Rightarrow> bool" where
  "ioWhileLocked held [] = False"
| "ioWhileLocked held (Lock # es) = ioWhileLocked True es"
| "ioWhileLocked held (Unlock # es) = ioWhileLocked False es"
| "ioWhileLocked held (InterestLookup t k i sd # es) = (held \<or> ioWhileLocked held es)"
| "ioWhileLocked held (Broadcast p b # es) = (held \<or> ioWhileLocked held es)"
| "ioWhileLocked held (e # es) = ioWhileLocked held es"




text \<open>What a notifying handler leaves behind, for the proofs below.\<close>

definition notifies :: "lendingOrder \<Rightarrow> string \<Rightarrow> service \<Rightarrow> panic + service \<Rightarrow> bool" where
  "notifies o' st s r =
     (\<exists>s' sent. r = Inr s' \<and> trace s' = trace s @ sent \<and>
        DaoCreate (notificationFor o' st) \<in> set sent \<and>
        (\<exists>p. SendNotificationMessage st (UserAddress o') p \<in> set sent))"

text \<open>A sample environment, order and window for the worked examples.\<close>

definition env0 :: env where
  "env0 = \<lparr>notificationDaoCreate = (\<lambda>n. ([n], None)),
           lendingTradeDaoGetByHash = (\<lambda>h. Some (LendingTrade h)),
           GetLendingOrderBookInterest = (\<lambda>t k i sd. (Some 100, None)),
           GetLendingOrderBookChannelID = (\<lambda>t k. k @ ''::60''),
           PublishLendingOrderResponse = (\<lambda>r. None),
           jsonUnmarshal = (\<lambda>b. Inl ''unexpected end of JSON input''),
           AddNewLendingOrder = (\<lambda>x. None),
           CancelLendingOrder = (\<lambda>x. None)\<rparr>"

definition order0 :: lendingOrder where
  "order0 = \<lparr>UserAddress = ''0xA1'', Hash = ''0xH1'', Side = ''BORROW'', Term = 60,
             LendingToken = ''0xT1'', Interest = 7, Status = ''OPEN''\<rparr>"

definition pending0 :: service where
  "pending0 = \<lparr>trace = [], bulkLendingOrders = [(''0xT1::60'', [(''0xH1'', order0)])]\<rparr>"


section \<open>Properties of the subscription registry\<close>


lemma channelSubs_update:
  "channelSubs (AList.update ch m subs) ch' = (if ch' = ch then m else channelSubs subs ch')"
  by (simp add: channelSubs_def update_conv')

lemma subscribed_Subscribe:
  "Subscribe ch c s = Inr s' \<Longrightarrow>
   subscribed s' ch' c' = (subscribed s ch' c' \<or> (ch' = ch \<and> c' = c))"
  by (auto simp: Subscribe_def subscribed_def Let_def channelSubs_update update_conv' channelSubs_def
      split: if_splits option.splits)

lemma joined_Subscribe:
  "Subscribe ch c s = Inr s' \<Longrightarrow>
   joined s' c' = (if c' = c then joined s c @ [ch] else joined s c')"
  by (auto simp: Subscribe_def joined_def Let_def update_conv' split: if_splits option.splits)

lemma subscribed_UnsubscribeChannel:
  "subscribed (UnsubscribeChannel ch c s) ch' c' = (subscribed s ch' c' \<and> \<not> (ch' = ch \<and> c' = c))"
  by (auto simp: UnsubscribeChannel_def subscribed_def Let_def channelSubs_update update_conv' delete_conv' 
      split: if_splits option.splits)

lemma subscriptionsList_UnsubscribeChannel:
  "subscriptionsList (UnsubscribeChannel ch c s) = subscriptionsList s"
  by (simp add: UnsubscribeChannel_def Let_def)

lemma subscribed_foldl:
  "subscribed (foldl (\<lambda>s' id. UnsubscribeChannel id c s') s ids) ch' c' =
     (subscribed s ch' c' \<and> \<not> (c' = c \<and> ch' \<in> set ids))"
  by (induction ids arbitrary: s) (auto simp: subscribed_UnsubscribeChannel)

lemma subscriptionsList_foldl:
  "subscriptionsList (foldl (\<lambda>s' id. UnsubscribeChannel id c s') s ids) = subscriptionsList s"
  by (induction ids arbitrary: s) (auto simp: subscriptionsList_UnsubscribeChannel)

lemma subscribed_Unsubscribe:
  "subscribed (Unsubscribe c s) ch' c' = (subscribed s ch' c' \<and> \<not> (c' = c \<and> ch' \<in> set (joined s c)))"
  by (auto simp: Unsubscribe_def joined_def subscribed_foldl split: option.splits)

lemma subscriptionsList_Unsubscribe:
  "subscriptionsList (Unsubscribe c s) = subscriptionsList s"
  by (simp add: Unsubscribe_def subscriptionsList_foldl split: option.splits)

lemma joined_Unsubscribe: "joined (Unsubscribe c s) c' = joined s c'"
  by (simp add: joined_def subscriptionsList_Unsubscribe)

lemma joined_UnsubscribeChannel: "joined (UnsubscribeChannel ch c s) c' = joined s c'"
  by (simp add: joined_def subscriptionsList_UnsubscribeChannel)

lemma set_update_subset: "set (AList.update k v al) \<subseteq> insert (k, v) (set al)"
  by (induction al) auto

lemma wellFormed_update:
  "wellFormed s \<Longrightarrow> distinct (map fst m) \<Longrightarrow>
   wellFormed (s\<lparr>subscriptions := AList.update ch m (subscriptions s)\<rparr>)"
  using set_update_subset[of ch m "subscriptions s"]
  by (auto simp: wellFormed_def list_all_iff)

lemma wellFormed_channelSubs: "wellFormed s \<Longrightarrow> distinct (map fst (channelSubs (subscriptions s) ch))"
  by (auto simp: wellFormed_def list_all_iff channelSubs_def split: option.splits dest!: map_of_SomeD)

lemma wellFormed_subscriptionsList [simp]:
  "wellFormed (s\<lparr>subscriptionsList := l\<rparr>) = wellFormed s"
  by (simp add: wellFormed_def)

lemma wellFormed_Subscribe: "wellFormed s \<Longrightarrow> Subscribe ch c s = Inr s' \<Longrightarrow> wellFormed s'"
proof -
  assume wf: "wellFormed s" and sub: "Subscribe ch c s = Inr s'"
  define s1 where "s1 = (if map_of (subscriptions s) ch = None
                  then s\<lparr>subscriptions := AList.update ch [] (subscriptions s)\<rparr> else s)"
  have wf1: "wellFormed s1"
    using wf by (simp add: s1_def wellFormed_update)
  define s2 where "s2 = s1\<lparr>subscriptions := AList.update ch
                       (AList.update c True (channelSubs (subscriptions s1) ch)) (subscriptions s1)\<rparr>"
  have wf2: "wellFormed s2"
    unfolding s2_def
    by (rule wellFormed_update [OF wf1]) (simp add: distinct_update wellFormed_channelSubs [OF wf1])
  from sub have "subscriptions s' = subscriptions s2"
    by (auto simp: Subscribe_def Let_def s1_def s2_def split: if_splits)
  with wf2 show ?thesis by (simp add: wellFormed_def)
qed

lemma wellFormed_UnsubscribeChannel: "wellFormed s \<Longrightarrow> wellFormed (UnsubscribeChannel ch c s)"
proof -
  assume wf: "wellFormed s"
  define s1 where "s1 = s\<lparr>subscriptions := AList.update ch
                      (AList.update c False (channelSubs (subscriptions s) ch)) (subscriptions s)\<rparr>"
  have wf1: "wellFormed s1"
    unfolding s1_def
    by (rule wellFormed_update [OF wf]) (simp add: distinct_update wellFormed_channelSubs [OF wf])
  have "wellFormed (s1\<lparr>subscriptions := AList.update ch
                   (AList.delete c (channelSubs (subscriptions s1) ch)) (subscriptions s1)\<rparr>)"
    by (rule wellFormed_update [OF wf1]) (simp add: distinct_delete wellFormed_channelSubs [OF wf1])
  then show ?thesis
    using wf by (simp add: UnsubscribeChannel_def Let_def s1_def)
qed

lemma wellFormed_Unsubscribe: "wellFormed s \<Longrightarrow> wellFormed (Unsubscribe c s)"
proof -
  have "wellFormed s \<Longrightarrow> wellFormed (foldl (\<lambda>s' id. UnsubscribeChannel id c s') s ids)" for ids
    by (induction ids arbitrary: s) (simp_all add: wellFormed_UnsubscribeChannel)
  then show "wellFormed s \<Longrightarrow> wellFormed (Unsubscribe c s)"
    by (simp add: Unsubscribe_def split: option.splits)
qed

lemma wellFormed_call: "wellFormed s \<Longrightarrow> wellFormed (call s x)"
  by (cases x) (auto simp: wellFormed_Subscribe wellFormed_UnsubscribeChannel wellFormed_Unsubscribe
      split: sum.splits)

lemma wellFormed_calls: "wellFormed s \<Longrightarrow> wellFormed (calls cs s)"
  unfolding calls_def by (induction cs arbitrary: s) (simp_all add: wellFormed_call)

lemma wellFormed_New: "wellFormed NewLendingMarketsSocket"
  by (simp add: wellFormed_def NewLendingMarketsSocket_def)

lemma Broadcast_iff:
  "wellFormed s \<Longrightarrow> c \<in> fst ` set (BroadcastMessage ch p s) \<longleftrightarrow> subscribed s ch c"
proof -
  assume "wellFormed s"
  then have d: "distinct (map fst (channelSubs (subscriptions s) ch))"
    by (rule wellFormed_channelSubs)
  have "c \<in> fst ` set (BroadcastMessage ch p s) \<longleftrightarrow> (c, True) \<in> set (channelSubs (subscriptions s) ch)"
    by (force simp: BroadcastMessage_def getSubscriptions_def image_iff)
  also have "\<dots> \<longleftrightarrow> map_of (channelSubs (subscriptions s) ch) c = Some True"
    using d by simp
  also have "\<dots> \<longleftrightarrow> subscribed s ch c"
    by (auto simp: subscribed_def split: option.splits)
  finally show ?thesis .
qed

lemma listed_call: "listed s \<Longrightarrow> listed (call s x)"
  by (cases x)
     (auto simp: listed_def subscribed_Subscribe joined_Subscribe subscribed_UnsubscribeChannel
        joined_UnsubscribeChannel subscribed_Unsubscribe joined_Unsubscribe split: sum.splits)

lemma listed_calls: "listed s \<Longrightarrow> listed (calls cs s)"
  unfolding calls_def by (induction cs arbitrary: s) (simp_all add: listed_call)

lemma listed_New: "listed NewLendingMarketsSocket"
  by (simp add: listed_def subscribed_def NewLendingMarketsSocket_def channelSubs_def)


lemma subscribed_in_keys: "subscribed s ch c \<Longrightarrow> ch \<in> set (map fst (subscriptions s))"
  by (auto simp: subscribed_def channelSubs_def split: option.splits dest!: map_of_SomeD) force

lemma holdsActiveEntry_iff: "holdsActiveEntry s c \<longleftrightarrow> (\<exists>ch. subscribed s ch c)"
  using subscribed_in_keys by (auto simp: holdsActiveEntry_def list_ex_iff simp del: set_map)

lemma filter_key_distinct:
  "distinct (map fst al) \<Longrightarrow> map_of al k = Some v \<Longrightarrow> filter (\<lambda>e. fst e = k) al = [(k, v)]"
proof (induction al)
  case Nil
  then show ?case by simp
next
  case (Cons e al)
  show ?case
  proof (cases "fst e = k")
    case True
    with Cons.prems have "k \<notin> fst ` set al" and "e = (k, v)"
      by (auto simp: prod_eq_iff)
    then have "filter (\<lambda>e. fst e = k) al = []"
      by (auto simp: filter_empty_conv)
    with True \<open>e = (k, v)\<close> show ?thesis by simp
  next
    case False
    with Cons show ?thesis by auto
  qed
qed

text \<open>
  Claim C3, as amended. After any sequence of \<open>Subscribe\<close>, \<open>UnsubscribeChannel\<close> and
  \<open>Unsubscribe\<close> calls on a new registry, a connection that holds an active entry of the
  forward index is present in the inverse index, and every channel on which it is
  active is in its list there. The converse is not promised: no call removes anything
  from \<open>subscriptionsList\<close>.
\<close>

theorem inverse_index_covers_forward:
  "holdsActiveEntry (calls cs NewLendingMarketsSocket) c \<Longrightarrow>
   inInverseIndex (calls cs NewLendingMarketsSocket) c \<and>
   (\<forall>channelID. subscribed (calls cs NewLendingMarketsSocket) channelID c \<longrightarrow>
       channelID \<in> set (joined (calls cs NewLendingMarketsSocket) c))"
proof -
  assume h: "holdsActiveEntry (calls cs NewLendingMarketsSocket) c"
  have l: "listed (calls cs NewLendingMarketsSocket)"
    by (rule listed_calls [OF listed_New])
  from h obtain ch where "subscribed (calls cs NewLendingMarketsSocket) ch c"
    by (auto simp: holdsActiveEntry_iff)
  with l have "ch \<in> set (joined (calls cs NewLendingMarketsSocket) c)"
    by (simp add: listed_def)
  then have "inInverseIndex (calls cs NewLendingMarketsSocket) c"
    by (cases "map_of (subscriptionsList (calls cs NewLendingMarketsSocket)) c")
       (simp_all add: joined_def inInverseIndex_def)
  with l show ?thesis by (simp add: listed_def)
qed

lemmas registry_eval =
  calls_def NewLendingMarketsSocket_def Subscribe_def UnsubscribeChannel_def Unsubscribe_def
  subscribed_def channelSubs_def joined_def inInverseIndex_def holdsActiveEntry_def Let_def
  BroadcastMessage_def getSubscriptions_def

text \<open>C3, an instance: one subscription of connection 1 to channel \<open>a\<close>.\<close>

theorem inverse_index_covers_forward_witness:
  "holdsActiveEntry (calls [CallSubscribe ''a'' (Some 1)] NewLendingMarketsSocket) (Some 1) \<and>
   inInverseIndex (calls [CallSubscribe ''a'' (Some 1)] NewLendingMarketsSocket) (Some 1) \<and>
   ''a'' \<in> set (joined (calls [CallSubscribe ''a'' (Some 1)] NewLendingMarketsSocket) (Some 1))"
proof -
  have h: "holdsActiveEntry (calls [CallSubscribe ''a'' (Some 1)] NewLendingMarketsSocket) (Some 1)"
    by (simp add: registry_eval)
  have s: "subscribed (calls [CallSubscribe ''a'' (Some 1)] NewLendingMarketsSocket) ''a'' (Some 1)"
    by (simp add: registry_eval)
  from inverse_index_covers_forward [OF h] h s show ?thesis by blast
qed

text \<open>
  C3 as stated fails: after \<open>Subscribe(a, c)\<close> and \<open>UnsubscribeChannel(a, c)\<close> the
  connection is still in the inverse index and holds no active forward entry.
\<close>

theorem inverse_index_not_iff_counterexample:
  "inInverseIndex
     (calls [CallSubscribe ''a'' (Some 1), CallUnsubscribeChannel ''a'' (Some 1)]
        NewLendingMarketsSocket) (Some 1) \<and>
   \<not> holdsActiveEntry
     (calls [CallSubscribe ''a'' (Some 1), CallUnsubscribeChannel ''a'' (Some 1)]
        NewLendingMarketsSocket) (Some 1)"
  by (simp add: registry_eval)

text \<open>
  Claim C8. After any sequence of registry calls, once \<open>Unsubscribe(c)\<close> has run, and for
  as long as the calls that follow do not subscribe \<open>c\<close> again, \<open>BroadcastMessage\<close> on any
  channel makes no delivery to \<open>c\<close>.
\<close>

theorem unsubscribe_stops_broadcast:
  assumes "\<forall>x \<in> set later. \<forall>channelID. x \<noteq> CallSubscribe channelID c"
  shows "c \<notin> fst ` set (BroadcastMessage channelID p
            (calls later (Unsubscribe c (calls before NewLendingMarketsSocket))))"
proof -
  let ?s0 = "calls before NewLendingMarketsSocket"
  let ?s1 = "Unsubscribe c ?s0"
  have "listed ?s0" by (rule listed_calls [OF listed_New])
  then have gone: "\<forall>ch. \<not> subscribed ?s1 ch c"
    by (auto simp: subscribed_Unsubscribe listed_def)
  have keep: "\<forall>ch. \<not> subscribed (call s x) ch c"
    if "\<forall>ch. \<not> subscribed s ch c" and "\<forall>ch. x \<noteq> CallSubscribe ch c" for s x
    using that
    by (cases x)
       (auto simp: subscribed_Subscribe subscribed_UnsubscribeChannel subscribed_Unsubscribe
          split: sum.splits)
  have "\<forall>ch. \<not> subscribed (foldl call s later) ch c"
    if "\<forall>ch. \<not> subscribed s ch c" for s
    using that assms
  proof (induction later arbitrary: s)
    case Nil
    then show ?case by simp
  next
    case (Cons x xs)
    have "\<forall>ch. \<not> subscribed (call s x) ch c"
      using Cons.prems by (intro keep) auto
    then show ?case using Cons by simp
  qed
  from this [OF gone] have "\<not> subscribed (calls later ?s1) channelID c"
    by (simp add: calls_def)
  moreover have "wellFormed (calls later ?s1)"
    by (intro wellFormed_calls wellFormed_Unsubscribe wellFormed_New)
  ultimately show ?thesis by (simp add: Broadcast_iff)
qed

text \<open>
  C8, an instance: connections 1 and 2 on channel \<open>a\<close>; connection 1 is reached by a
  broadcast before its \<open>Unsubscribe\<close> and not after it, while 2 goes on subscribing.
\<close>

theorem unsubscribe_stops_broadcast_witness:
  "Some 1 \<in> fst ` set (BroadcastMessage ''a'' (0::nat)
            (calls [CallSubscribe ''a'' (Some 1), CallSubscribe ''a'' (Some 2)] NewLendingMarketsSocket)) \<and>
   Some 1 \<notin> fst ` set (BroadcastMessage ''a'' (0::nat)
            (calls [CallSubscribe ''b'' (Some 2)]
               (Unsubscribe (Some 1)
                  (calls [CallSubscribe ''a'' (Some 1), CallSubscribe ''a'' (Some 2)] NewLendingMarketsSocket))))"
proof -
  have h: "\<forall>x \<in> set [CallSubscribe ''b'' (Some 2)]. \<forall>channelID. x \<noteq> CallSubscribe channelID (Some (1::nat))"
    by simp
  have b: "Some 1 \<in> fst ` set (BroadcastMessage ''a'' (0::nat)
            (calls [CallSubscribe ''a'' (Some 1), CallSubscribe ''a'' (Some 2)] NewLendingMarketsSocket))"
    by (simp add: registry_eval)
  from unsubscribe_stops_broadcast [OF h, of "''a''" "0::nat" "[CallSubscribe ''a'' (Some 1), CallSubscribe ''a'' (Some 2)]"] b
  show ?thesis by blast
qed

text \<open>
  Claim C6, as amended. On any registry reached from a new one, subscribing the same
  channel and connection twice succeeds both times and leaves exactly one entry for the
  pair in the forward index, an active one, so a broadcast delivers once; a single
  \<open>UnsubscribeChannel\<close> then removes that entry and the connection gets no broadcast on
  the channel. Nothing is said of the inverse index.
\<close>

theorem subscribe_twice_then_unsubscribe:
  "\<exists>s1 s2. Subscribe channelID (Some k) (calls cs NewLendingMarketsSocket) = Inr s1 \<and>
      Subscribe channelID (Some k) s1 = Inr s2 \<and>
      filter (\<lambda>e. fst e = Some k) (channelSubs (subscriptions s2) channelID) = [(Some k, True)] \<and>
      length (filter (\<lambda>d. fst d = Some k) (BroadcastMessage channelID p s2)) = 1 \<and>
      Some k \<notin> fst ` set (channelSubs (subscriptions (UnsubscribeChannel channelID (Some k) s2)) channelID) \<and>
      Some k \<notin> fst ` set (BroadcastMessage channelID p (UnsubscribeChannel channelID (Some k) s2))"
proof -
  let ?s = "calls cs NewLendingMarketsSocket"
  have wf: "wellFormed ?s" by (rule wellFormed_calls [OF wellFormed_New])
  obtain s1 where s1: "Subscribe channelID (Some k) ?s = Inr s1"
    by (simp add: Subscribe_def Let_def)
  obtain s2 where s2: "Subscribe channelID (Some k) s1 = Inr s2"
    by (simp add: Subscribe_def Let_def)
  have wf2: "wellFormed s2"
    using wf s1 s2 by (blast intro: wellFormed_Subscribe)
  have sub2: "subscribed s2 channelID (Some k)"
    using s2 by (simp add: subscribed_Subscribe)
  then have m: "map_of (channelSubs (subscriptions s2) channelID) (Some k) = Some True"
    by (auto simp: subscribed_def split: option.splits)
  have one: "filter (\<lambda>e. fst e = Some k) (channelSubs (subscriptions s2) channelID) = [(Some k, True)]"
    by (rule filter_key_distinct [OF wellFormed_channelSubs [OF wf2] m])
  have "filter (\<lambda>d. fst d = Some k) (BroadcastMessage channelID p s2) =
        map (\<lambda>e. (fst e, p)) (filter snd (filter (\<lambda>e. fst e = Some k) (channelSubs (subscriptions s2) channelID)))"
    by (simp add: BroadcastMessage_def getSubscriptions_def filter_map comp_def conj_commute)
  then have cnt: "length (filter (\<lambda>d. fst d = Some k) (BroadcastMessage channelID p s2)) = 1"
    by (simp add: one)
  let ?u = "UnsubscribeChannel channelID (Some k) s2"
  have "channelSubs (subscriptions ?u) channelID =
        AList.delete (Some k) (AList.update (Some k) False (channelSubs (subscriptions s2) channelID))"
    using sub2 by (simp add: UnsubscribeChannel_def Let_def channelSubs_update)
  then have nofwd: "Some k \<notin> fst ` set (channelSubs (subscriptions ?u) channelID)"
    by (simp add: delete_notin_dom)
  have "wellFormed ?u" by (rule wellFormed_UnsubscribeChannel [OF wf2])
  then have nobc: "Some k \<notin> fst ` set (BroadcastMessage channelID p ?u)"
    by (simp add: Broadcast_iff subscribed_UnsubscribeChannel)
  from s1 s2 one cnt nofwd nobc show ?thesis by blast
qed

text \<open>
  C6 as stated fails: after two \<open>Subscribe(a, c)\<close> and one \<open>UnsubscribeChannel(a, c)\<close> the
  registry still records the pair, twice, in the inverse index; and the second
  \<open>Subscribe\<close> did change the state.
\<close>

theorem unsubscribe_channel_keeps_inverse_counterexample:
  "joined (calls [CallSubscribe ''a'' (Some 1), CallSubscribe ''a'' (Some 1),
                  CallUnsubscribeChannel ''a'' (Some 1)] NewLendingMarketsSocket) (Some 1)
     = [''a'', ''a''] \<and>
   calls [CallSubscribe ''a'' (Some 1), CallSubscribe ''a'' (Some 1)] NewLendingMarketsSocket
     \<noteq> calls [CallSubscribe ''a'' (Some 1)] NewLendingMarketsSocket"
  by (simp add: registry_eval)



section \<open>Properties of the lending order service\<close>


lemmas status_defs =
  LENDING_ORDER_ADDED_def LENDING_ORDER_CANCELLED_def LENDING_ORDER_REJECTED_def
  LENDING_ORDER_PARTIALLY_FILLED_def LENDING_ORDER_FILLED_def LENDING_ORDER_REPAYED_def
  LENDING_ORDER_TOPUPED_def LENDING_ORDER_RECALLED_def LENDING_ORDER_TOPUP_REJECTED_def
  LENDING_ORDER_REPAY_REJECTED_def LENDING_ORDER_RECALL_REJECTED_def ERROR_STATUS_def

lemmas storage_defs =
  LendingStatusOpen_def LendingStatusCancelled_def LendingStatusFilled_def
  LendingStatusPartialFilled_def LendingStatusRepay_def LendingStatusTopup_def
  LendingStatusRecall_def LendingStatusRejected_def
  LENDING_EVENT_def REPAY_EVENT_def TOPUP_EVENT_def RECALL_EVENT_def

lemmas handler_defs =
  handleLendingOrderAdded_def handleLendingOrderCancelled_def handleLendingOrderRejected_def
  handleLendingOrderPartialFilled_def handleLendingOrderFilled_def handleLendingRepay_def
  handleLendingTopup_def handleLendingRecall_def handleLendingReject_def handleEngineError_def
  handleEngineUnknownMessage_def

lemma trace_emit [simp]: "trace (emit e s) = trace s @ [e]"
  by (simp add: emit_def)

lemma bulk_emit [simp]: "bulkLendingOrders (emit e s) = bulkLendingOrders s"
  by (simp add: emit_def)

lemma createNotification_trace:
  "createNotification env o' st s = (ns, s') \<Longrightarrow>
   \<exists>l. trace s' = trace s @ DaoCreate (notificationFor o' st) # l \<and>
       bulkLendingOrders s' = bulkLendingOrders s"
  by (auto simp: createNotification_def notificationFor_def Let_def split: prod.splits option.splits)

lemma saveBulk_Some:
  "ResLendingOrder res = Some o' \<Longrightarrow>
   \<exists>s'. saveBulkLendingOrders env res s = Inr (s', None) \<and> trace s' = trace s @ [Lock, Unlock]"
  by (simp add: saveBulkLendingOrders_def Let_def)

lemma saveBulk_None:
  "ResLendingOrder res = None \<Longrightarrow> saveBulkLendingOrders env res s = Inl NilPointerDereference"
  by (simp add: saveBulkLendingOrders_def)

lemma handlers_Some:
  assumes "ResLendingOrder res = Some o'"
  shows "\<exists>s'. handleLendingOrderAdded env res s = Inr s'"
    and "\<exists>s'. handleLendingOrderCancelled env res s = Inr s'"
    and "\<exists>s'. handleLendingOrderRejected env res s = Inr s'"
    and "\<exists>s'. handleLendingOrderPartialFilled env res s = Inr s'"
    and "\<exists>s'. handleLendingOrderFilled env res s = Inr s'"
    and "\<exists>s'. handleLendingRepay env res s = Inr s'"
    and "\<exists>s'. handleLendingTopup env res s = Inr s'"
    and "\<exists>s'. handleLendingRecall env res s = Inr s'"
    and "\<exists>s'. handleLendingReject env res lt s = Inr s'"
    and "\<exists>s'. handleEngineError env res s = Inr s'"
    and "\<exists>s'. handleEngineUnknownMessage env res s = Inr s'"
  using assms by (simp_all add: handler_defs Let_def split: prod.splits)

lemma dispatch_Some:
  "ResLendingOrder res = Some o' \<Longrightarrow> \<exists>s'. dispatch env res s = Inr s'"
  unfolding dispatch_def by (simp add: handlers_Some)

lemma handlers_None:
  assumes "ResLendingOrder res = None"
  shows "handleLendingOrderAdded env res s = Inl NilPointerDereference"
    and "handleLendingOrderCancelled env res s = Inl NilPointerDereference"
    and "handleLendingRepay env res s = Inl NilPointerDereference"
    and "handleLendingTopup env res s = Inl NilPointerDereference"
    and "handleLendingRecall env res s = Inl NilPointerDereference"
    and "handleLendingReject env res lt s = Inl NilPointerDereference"
    and "handleEngineError env res s = Inl NilPointerDereference"
  using assms by (simp_all add: handler_defs)

lemma dispatch_None:
  "ResLendingOrder res = None \<Longrightarrow>
   dispatch env res s = Inl NilPointerDereference \<or> dispatch env res s = Inr s"
  unfolding dispatch_def
  by (simp add: handlers_None handleLendingOrderRejected_def handleLendingOrderPartialFilled_def
        handleLendingOrderFilled_def handleEngineUnknownMessage_def)

text \<open>
  Claim C10. With a non-nil \<open>LendingOrder\<close>, \<open>HandleLendingOrderResponse\<close> does not panic and
  returns a nil error; with a nil \<open>LendingOrder\<close> and a status other than \<open>ERROR\<close>, for
  instance an unknown one, it panics on a nil pointer dereference.
\<close>

theorem response_needs_order:
  "(ResLendingOrder res \<noteq> None \<longrightarrow>
      (\<exists>s'. HandleLendingOrderResponse env res s = Inr (s', None))) \<and>
   (ResStatus res \<noteq> ERROR_STATUS \<and> ResLendingOrder res = None \<longrightarrow>
      HandleLendingOrderResponse env res s = Inl NilPointerDereference)"
proof (intro conjI impI)
  assume "ResLendingOrder res \<noteq> None"
  then obtain o' where o: "ResLendingOrder res = Some o'" by auto
  from dispatch_Some [OF o] obtain s1 where d: "dispatch env res s = Inr s1" by blast
  from saveBulk_Some [OF o] obtain s2 where "saveBulkLendingOrders env res s1 = Inr (s2, None)"
    by blast
  with d show "\<exists>s'. HandleLendingOrderResponse env res s = Inr (s', None)"
    by (simp add: HandleLendingOrderResponse_def)
next
  assume a: "ResStatus res \<noteq> ERROR_STATUS \<and> ResLendingOrder res = None"
  then have n: "ResLendingOrder res = None" by simp
  from dispatch_None [OF n, of env s] saveBulk_None [OF n, of env s] a
  show "HandleLendingOrderResponse env res s = Inl NilPointerDereference"
    by (auto simp: HandleLendingOrderResponse_def)
qed

lemmas service_eval =
  HandleLendingOrderResponse_def dispatch_def handler_defs status_defs saveBulkLendingOrders_def
  createNotification_def emit_def bulkOf_def Let_def env0_def order0_def NewLendingOrderService_def

text \<open>C10, an instance: the unknown status \<open>FOO\<close>, with and without an order.\<close>

theorem response_needs_order_witness:
  "(\<exists>s'. HandleLendingOrderResponse env0 \<lparr>ResStatus = ''FOO'', ResLendingOrder = Some order0\<rparr>
           NewLendingOrderService = Inr (s', None)) \<and>
   HandleLendingOrderResponse env0 \<lparr>ResStatus = ''FOO'', ResLendingOrder = None\<rparr>
           NewLendingOrderService = Inl NilPointerDereference"
  using response_needs_order [of "\<lparr>ResStatus = ''FOO'', ResLendingOrder = Some order0\<rparr>" env0 NewLendingOrderService]
    response_needs_order [of "\<lparr>ResStatus = ''FOO'', ResLendingOrder = None\<rparr>" env0 NewLendingOrderService]
  by (simp add: ERROR_STATUS_def)


lemma saveBulk_eq:
  "ResLendingOrder res = Some o' \<Longrightarrow>
   saveBulkLendingOrders env res s =
     Inr (s\<lparr>trace := trace s @ [Lock, Unlock],
            bulkLendingOrders :=
              AList.update (GetLendingOrderBookChannelID env (Term o') (LendingToken o'))
                (AList.update (Hash o') o'
                   (bulkOf s (GetLendingOrderBookChannelID env (Term o') (LendingToken o'))))
                (bulkLendingOrders s)\<rparr>, None)"
  by (auto simp: saveBulkLendingOrders_def Let_def emit_def bulkOf_def update_conv')

lemma HandleLendingOrderResponse_eq:
  "dispatch env res s = Inr s1 \<Longrightarrow> ResStatus res \<noteq> ERROR_STATUS \<Longrightarrow>
   ResLendingOrder res = Some o' \<Longrightarrow>
   HandleLendingOrderResponse env res s =
     Inr (s1\<lparr>trace := trace s1 @ [Lock, Unlock],
            bulkLendingOrders :=
              AList.update (GetLendingOrderBookChannelID env (Term o') (LendingToken o'))
                (AList.update (Hash o') o'
                   (bulkOf s1 (GetLendingOrderBookChannelID env (Term o') (LendingToken o'))))
                (bulkLendingOrders s1)\<rparr>, None)"
  by (simp add: HandleLendingOrderResponse_def saveBulk_eq)

lemma handlers_notify:
  assumes "ResLendingOrder res = Some o'"
  shows "notifies o' (ResStatus res) s (handleLendingOrderAdded env res s)"
    and "ResStatus res = LENDING_ORDER_CANCELLED \<Longrightarrow>
           notifies o' (ResStatus res) s (handleLendingOrderCancelled env res s)"
    and "ResStatus res = LENDING_ORDER_REPAYED \<Longrightarrow>
           notifies o' (ResStatus res) s (handleLendingRepay env res s)"
    and "ResStatus res = LENDING_ORDER_TOPUPED \<Longrightarrow>
           notifies o' (ResStatus res) s (handleLendingTopup env res s)"
    and "ResStatus res = LENDING_ORDER_RECALLED \<Longrightarrow>
           notifies o' (ResStatus res) s (handleLendingRecall env res s)"
    and "notifies o' (ResStatus res) s (handleLendingReject env res (ResStatus res) s)"
  using assms
  by (auto simp: notifies_def handler_defs createNotification_def notificationFor_def Let_def
        LENDING_ORDER_CANCELLED_def split: prod.splits option.splits)


lemma dispatch_notifies:
  assumes "status \<in> set notifyingStatuses"
  shows "notifies o' status s (dispatch env \<lparr>ResStatus = status, ResLendingOrder = Some o'\<rparr> s)"
proof -
  let ?res = "\<lparr>ResStatus = status, ResLendingOrder = Some o'\<rparr>"
  have o: "ResLendingOrder ?res = Some o'" by simp
  have st: "ResStatus ?res = status" by simp
  from assms consider
      "status = LENDING_ORDER_ADDED" | "status = LENDING_ORDER_CANCELLED"
    | "status = LENDING_ORDER_REPAYED" | "status = LENDING_ORDER_TOPUPED"
    | "status = LENDING_ORDER_RECALLED" | "status = LENDING_ORDER_TOPUP_REJECTED"
    | "status = LENDING_ORDER_REPAY_REJECTED" | "status = LENDING_ORDER_RECALL_REJECTED"
    by (auto simp: notifyingStatuses_def)
  then show ?thesis
  proof cases
    case 1
    have "dispatch env ?res s = handleLendingOrderAdded env ?res s"
      by (simp add: dispatch_def 1)
    with handlers_notify(1) [OF o, of s env] show ?thesis by simp
  next
    case 2
    have "dispatch env ?res s = handleLendingOrderCancelled env ?res s"
      by (simp add: dispatch_def 2 status_defs)
    with handlers_notify(2) [OF o, of s env] 2 show ?thesis by simp
  next
    case 3
    have "dispatch env ?res s = handleLendingRepay env ?res s"
      by (simp add: dispatch_def 3 status_defs)
    with handlers_notify(3) [OF o, of s env] 3 show ?thesis by simp
  next
    case 4
    have "dispatch env ?res s = handleLendingTopup env ?res s"
      by (simp add: dispatch_def 4 status_defs)
    with handlers_notify(4) [OF o, of s env] 4 show ?thesis by simp
  next
    case 5
    have "dispatch env ?res s = handleLendingRecall env ?res s"
      by (simp add: dispatch_def 5 status_defs)
    with handlers_notify(5) [OF o, of s env] 5 show ?thesis by simp
  next
    case 6
    have "dispatch env ?res s = handleLendingReject env ?res (ResStatus ?res) s"
      by (simp add: dispatch_def 6 status_defs)
    with handlers_notify(6) [OF o, of s env] show ?thesis by simp
  next
    case 7
    have "dispatch env ?res s = handleLendingReject env ?res (ResStatus ?res) s"
      by (simp add: dispatch_def 7 status_defs)
    with handlers_notify(6) [OF o, of s env] show ?thesis by simp
  next
    case 8
    have "dispatch env ?res s = handleLendingReject env ?res (ResStatus ?res) s"
      by (simp add: dispatch_def 8 status_defs)
    with handlers_notify(6) [OF o, of s env] show ?thesis by simp
  qed
qed

lemma notifying_not_ERROR: "status \<in> set notifyingStatuses \<Longrightarrow> status \<noteq> ERROR_STATUS"
  by (auto simp: notifyingStatuses_def status_defs)

text \<open>
  Claim C1, as amended. For every status of the dispatch table other than
  \<open>PARTIALLY_FILLED\<close>, \<open>FILLED\<close> and \<open>REJECTED\<close> (leaving \<open>ERROR\<close> aside, as the claim does),
  handling a response persists a notification that carries the order's hash and the
  triggering status, and sends a message with that status to the order's user address.
  The handler of \<open>REJECTED\<close> is an empty placeholder like those of \<open>PARTIALLY_FILLED\<close> and
  \<open>FILLED\<close>: the response only passes through the bulk buffer.
\<close>

theorem notifying_statuses_notify:
  "(status \<in> set notifyingStatuses \<longrightarrow>
      (\<exists>s' sent.
         HandleLendingOrderResponse env \<lparr>ResStatus = status, ResLendingOrder = Some o'\<rparr> s
           = Inr (s', None) \<and>
         trace s' = trace s @ sent \<and>
         DaoCreate (notificationFor o' status) \<in> set sent \<and>
         (\<exists>p. SendNotificationMessage status (UserAddress o') p \<in> set sent))) \<and>
   (\<exists>s'. HandleLendingOrderResponse env
            \<lparr>ResStatus = LENDING_ORDER_REJECTED, ResLendingOrder = Some o'\<rparr> s = Inr (s', None) \<and>
         trace s' = trace s @ [Lock, Unlock])"
proof (intro conjI impI)
  let ?res = "\<lparr>ResStatus = status, ResLendingOrder = Some o'\<rparr>"
  assume a: "status \<in> set notifyingStatuses"
  from dispatch_notifies [OF a, of o' s env] obtain s1 sent where
    d: "dispatch env ?res s = Inr s1" and t: "trace s1 = trace s @ sent" and
    n: "DaoCreate (notificationFor o' status) \<in> set sent" and
    m: "\<exists>p. SendNotificationMessage status (UserAddress o') p \<in> set sent"
    unfolding notifies_def by blast
  have e: "ResStatus ?res \<noteq> ERROR_STATUS"
    using notifying_not_ERROR [OF a] by simp
  have "ResLendingOrder ?res = Some o'" by simp
  from HandleLendingOrderResponse_eq [OF d e this]
  obtain s' where h: "HandleLendingOrderResponse env ?res s = Inr (s', None)"
    and t': "trace s' = trace s1 @ [Lock, Unlock]"
    by simp
  from t t' have "trace s' = trace s @ (sent @ [Lock, Unlock])" by simp
  moreover from n have "DaoCreate (notificationFor o' status) \<in> set (sent @ [Lock, Unlock])"
    by simp
  moreover from m have "\<exists>p. SendNotificationMessage status (UserAddress o') p \<in> set (sent @ [Lock, Unlock])"
    by auto
  ultimately show "\<exists>s' sent.
         HandleLendingOrderResponse env ?res s = Inr (s', None) \<and>
         trace s' = trace s @ sent \<and>
         DaoCreate (notificationFor o' status) \<in> set sent \<and>
         (\<exists>p. SendNotificationMessage status (UserAddress o') p \<in> set sent)"
    using h by blast
next
  let ?res = "\<lparr>ResStatus = LENDING_ORDER_REJECTED, ResLendingOrder = Some o'\<rparr>"
  have d: "dispatch env ?res s = Inr s"
    by (simp add: dispatch_def status_defs handleLendingOrderRejected_def)
  have e: "ResStatus ?res \<noteq> ERROR_STATUS" by (simp add: status_defs)
  have "ResLendingOrder ?res = Some o'" by simp
  from HandleLendingOrderResponse_eq [OF d e this]
  show "\<exists>s'. HandleLendingOrderResponse env ?res s = Inr (s', None) \<and>
         trace s' = trace s @ [Lock, Unlock]"
    by simp
qed

text \<open>C1, an instance: a rejected top-up of the sample order.\<close>

theorem notifying_statuses_notify_witness:
  "LENDING_ORDER_TOPUP_REJECTED \<in> set notifyingStatuses \<and>
   (\<exists>s' sent.
      HandleLendingOrderResponse env0
        \<lparr>ResStatus = LENDING_ORDER_TOPUP_REJECTED, ResLendingOrder = Some order0\<rparr>
        NewLendingOrderService = Inr (s', None) \<and>
      trace s' = trace NewLendingOrderService @ sent \<and>
      DaoCreate (notificationFor order0 LENDING_ORDER_TOPUP_REJECTED) \<in> set sent \<and>
      (\<exists>p. SendNotificationMessage LENDING_ORDER_TOPUP_REJECTED (UserAddress order0) p \<in> set sent))"
proof -
  have h: "LENDING_ORDER_TOPUP_REJECTED \<in> set notifyingStatuses"
    by (simp add: notifyingStatuses_def)
  from notifying_statuses_notify [of LENDING_ORDER_TOPUP_REJECTED env0 order0 NewLendingOrderService] h
  show ?thesis by blast
qed

text \<open>
  C1 as stated fails at \<open>REJECTED\<close>: the whole trace of handling it is the lock and unlock
  of the bulk buffer; no notification is persisted and no message is sent.
\<close>

theorem rejected_handler_silent_counterexample:
  "HandleLendingOrderResponse env0
     \<lparr>ResStatus = LENDING_ORDER_REJECTED, ResLendingOrder = Some order0\<rparr> NewLendingOrderService
   = Inr (\<lparr>trace = [Lock, Unlock],
           bulkLendingOrders = [(''0xT1::60'', [(''0xH1'', order0)])]\<rparr>, None)"
  by (simp add: service_eval)


lemmas table_defs = specStatus_def specStatusTable_def specRejectedTable_def
  watcherDocTypes_def storageStatuses_def

text \<open>
  Claim C2. For a change event with a full document, a watcher document type and a
  storage status of the table, \<open>HandleDocumentType\<close> builds the response whose status is
  the one the specification's table gives (for \<open>REJECTED\<close>, by document type alone) and
  whose order is the document, and publishes it on the broker; a publish error is
  logged and returned.
\<close>

theorem document_status_mapping:
  assumes "FullDocument ev = Some doc"
    and "docType \<in> set watcherDocTypes"
    and "Status doc \<in> set storageStatuses"
  shows "\<exists>st. specStatus (Status doc) docType = Some st \<and>
           HandleDocumentType env ev docType s =
             (case PublishLendingOrderResponse env \<lparr>ResStatus = st, ResLendingOrder = Some doc\<rparr> of
                None \<Rightarrow> (emit (Publish \<lparr>ResStatus = st, ResLendingOrder = Some doc\<rparr>) s, None)
              | Some err \<Rightarrow>
                  (emit (LoggerError err)
                     (emit (Publish \<lparr>ResStatus = st, ResLendingOrder = Some doc\<rparr>) s), Some err))"
proof -
  from assms(3) consider
      "Status doc = LendingStatusRejected" | "Status doc = LendingStatusOpen"
    | "Status doc = LendingStatusCancelled" | "Status doc = LendingStatusFilled"
    | "Status doc = LendingStatusPartialFilled" | "Status doc = LendingStatusRepay"
    | "Status doc = LendingStatusTopup" | "Status doc = LendingStatusRecall"
    by (auto simp: storageStatuses_def specStatusTable_def)
  then show ?thesis
  proof cases
    case 1
    from assms(2) consider "docType = LENDING_EVENT" | "docType = TOPUP_EVENT"
      | "docType = REPAY_EVENT" | "docType = RECALL_EVENT"
      by (auto simp: watcherDocTypes_def)
    then show ?thesis
      using assms(1) 1
      by cases
         (simp_all add: HandleDocumentType_def table_defs storage_defs status_defs Let_def)
  next
    case 2
    with assms(1) show ?thesis
      by (simp add: HandleDocumentType_def table_defs storage_defs status_defs Let_def)
  next
    case 3
    with assms(1) show ?thesis
      by (simp add: HandleDocumentType_def table_defs storage_defs status_defs Let_def)
  next
    case 4
    with assms(1) show ?thesis
      by (simp add: HandleDocumentType_def table_defs storage_defs status_defs Let_def)
  next
    case 5
    with assms(1) show ?thesis
      by (simp add: HandleDocumentType_def table_defs storage_defs status_defs Let_def)
  next
    case 6
    with assms(1) show ?thesis
      by (simp add: HandleDocumentType_def table_defs storage_defs status_defs Let_def)
  next
    case 7
    with assms(1) show ?thesis
      by (simp add: HandleDocumentType_def table_defs storage_defs status_defs Let_def)
  next
    case 8
    with assms(1) show ?thesis
      by (simp add: HandleDocumentType_def table_defs storage_defs status_defs Let_def)
  qed
qed

text \<open>C2, an instance: a rejected document seen by the top-up watcher.\<close>

theorem document_status_mapping_witness:
  "specStatus ''REJECTED'' TOPUP_EVENT = Some LENDING_ORDER_TOPUP_REJECTED \<and>
   HandleDocumentType env0
     \<lparr>OperationType = ''update'', FullDocument = Some (order0\<lparr>Status := ''REJECTED''\<rparr>)\<rparr>
     TOPUP_EVENT NewLendingOrderService
   = (\<lparr>trace = [Publish \<lparr>ResStatus = LENDING_ORDER_TOPUP_REJECTED,
                           ResLendingOrder = Some (order0\<lparr>Status := ''REJECTED''\<rparr>)\<rparr>],
       bulkLendingOrders = []\<rparr>, None)"
proof -
  let ?doc = "order0\<lparr>Status := ''REJECTED''\<rparr>"
  let ?ev = "\<lparr>OperationType = ''update'', FullDocument = Some ?doc\<rparr>"
  have a: "FullDocument ?ev = Some ?doc" by simp
  have b: "TOPUP_EVENT \<in> set watcherDocTypes" by (simp add: watcherDocTypes_def)
  have c: "Status ?doc \<in> set storageStatuses"
    by (simp add: storageStatuses_def LendingStatusRejected_def)
  have t: "specStatus ''REJECTED'' TOPUP_EVENT = Some LENDING_ORDER_TOPUP_REJECTED"
    by (simp add: table_defs storage_defs)
  from document_status_mapping [OF a b c, of env0 NewLendingOrderService] t
  show ?thesis
    by (simp add: env0_def emit_def NewLendingOrderService_def)
qed

text \<open>
  Claim C9, as amended. When the payload of a \<open>NEW_LENDING_ORDER\<close> or
  \<open>CANCEL_LENDING_ORDER\<close> message fails to decode, the failure is logged (by the inner
  and by the outer handler), nothing is written to storage, nothing is retried, and the
  decode error is returned to the caller. A message of any other type is logged and
  dropped, and nil is returned.
\<close>

theorem decode_failure_returned:
  "(Type msg \<in> {''NEW_LENDING_ORDER'', ''CANCEL_LENDING_ORDER''} \<and>
    jsonUnmarshal env (Data msg) = Inl err \<longrightarrow>
      HandleLendingOrdersCreateCancel env msg s =
        (s\<lparr>trace := trace s @ [LoggerError err, LoggerError err]\<rparr>, Some err)) \<and>
   (Type msg \<notin> {''NEW_LENDING_ORDER'', ''CANCEL_LENDING_ORDER''} \<longrightarrow>
      HandleLendingOrdersCreateCancel env msg s =
        (s\<lparr>trace := trace s @ [LoggerError ''Unknown message'']\<rparr>, None))"
  by (auto simp: HandleLendingOrdersCreateCancel_def handleNewLendingOrder_def
        handleCancelLendingOrder_def emit_def)

text \<open>C9, an instance: an undecodable new order, and a message of type \<open>PING\<close>.\<close>

theorem decode_failure_returned_witness:
  "HandleLendingOrdersCreateCancel env0 \<lparr>Type = ''NEW_LENDING_ORDER'', Data = [1, 2]\<rparr>
     NewLendingOrderService =
     (\<lparr>trace = [LoggerError ''unexpected end of JSON input'',
                LoggerError ''unexpected end of JSON input''],
       bulkLendingOrders = []\<rparr>, Some ''unexpected end of JSON input'') \<and>
   HandleLendingOrdersCreateCancel env0 \<lparr>Type = ''PING'', Data = []\<rparr> NewLendingOrderService =
     (\<lparr>trace = [LoggerError ''Unknown message''], bulkLendingOrders = []\<rparr>, None)"
  using decode_failure_returned
          [of "\<lparr>Type = ''NEW_LENDING_ORDER'', Data = [1, 2]\<rparr>" env0
              "''unexpected end of JSON input''" NewLendingOrderService]
        decode_failure_returned
          [of "\<lparr>Type = ''PING'', Data = []\<rparr>" env0 "''x''" NewLendingOrderService]
  by (simp add: env0_def NewLendingOrderService_def)

text \<open>C9 as stated fails: the decode error of a new order message is returned to the caller.\<close>

theorem decode_failure_surfaces_counterexample:
  "snd (HandleLendingOrdersCreateCancel env0 \<lparr>Type = ''NEW_LENDING_ORDER'', Data = [1, 2]\<rparr>
          NewLendingOrderService) = Some ''unexpected end of JSON input''"
  by (simp add: HandleLendingOrdersCreateCancel_def handleNewLendingOrder_def env0_def)




lemma in_set_update: "(k, v) \<in> set (AList.update k v al)"
  by (induction al) auto

lemma ordersLoop_effects:
  "ordersLoop env orders b l s = (b', l', s') \<Longrightarrow>
   \<exists>es. trace s' = trace s @ es \<and> Lock \<notin> set es \<and> Unlock \<notin> set es \<and>
        bulkLendingOrders s' = bulkLendingOrders s \<and>
        set b \<subseteq> set b' \<and> set l \<subseteq> set l' \<and>
        (\<forall>x \<in> set orders.
           InterestLookup (Term (snd x)) (LendingToken (snd x)) (Interest (snd x)) (Side (snd x))
             \<in> set es \<and>
           (\<exists>a. \<lparr>interest = Interest (snd x), amount = a\<rparr> \<in> set b' \<union> set l'))"
proof (induction orders arbitrary: b l s)
  case Nil
  then show ?case by simp
next
  case (Cons e es)
  let ?o = "snd e"
  obtain am err where g: "GetLendingOrderBookInterest env (Term ?o) (LendingToken ?o) (Interest ?o) (Side ?o) = (am, err)"
    by (cases "GetLendingOrderBookInterest env (Term ?o) (LendingToken ?o) (Interest ?o) (Side ?o)")
  let ?s1 = "emit (InterestLookup (Term ?o) (LendingToken ?o) (Interest ?o) (Side ?o)) s"
  let ?s2 = "case err of None \<Rightarrow> ?s1 | Some e' \<Rightarrow> emit (LoggerError e') ?s1"
  let ?u = "\<lparr>interest = Interest ?o, amount = (case am of None \<Rightarrow> 0 | Some a \<Rightarrow> a)\<rparr>"
  have s2: "\<exists>l0. trace ?s2 = trace s @ InterestLookup (Term ?o) (LendingToken ?o) (Interest ?o) (Side ?o) # l0
              \<and> Lock \<notin> set l0 \<and> Unlock \<notin> set l0"
    and b2: "bulkLendingOrders ?s2 = bulkLendingOrders s"
    by (cases err; simp)+
  then obtain l0 where l0: "trace ?s2 = trace s @ InterestLookup (Term ?o) (LendingToken ?o) (Interest ?o) (Side ?o) # l0"
    "Lock \<notin> set l0" "Unlock \<notin> set l0" by blast
  show ?case
  proof (cases "Side ?o = BORROW")
    case True
    with Cons.prems g have "ordersLoop env es (b @ [?u]) l ?s2 = (b', l', s')"
      by (simp add: Let_def)
    from Cons.IH [OF this] obtain es' where
      r: "trace s' = trace ?s2 @ es'" "Lock \<notin> set es'" "Unlock \<notin> set es'"
         "bulkLendingOrders s' = bulkLendingOrders ?s2"
         "set (b @ [?u]) \<subseteq> set b'" "set l \<subseteq> set l'"
         "\<forall>x \<in> set es.
           InterestLookup (Term (snd x)) (LendingToken (snd x)) (Interest (snd x)) (Side (snd x))
             \<in> set es' \<and>
           (\<exists>a. \<lparr>interest = Interest (snd x), amount = a\<rparr> \<in> set b' \<union> set l')"
      by blast
    let ?all = "InterestLookup (Term ?o) (LendingToken ?o) (Interest ?o) (Side ?o) # l0 @ es'"
    have "trace s' = trace s @ ?all" using r(1) l0(1) by simp
    moreover have "Lock \<notin> set ?all" "Unlock \<notin> set ?all" using r l0 by auto
    moreover have "bulkLendingOrders s' = bulkLendingOrders s" using r(4) b2 by simp
    moreover have "set b \<subseteq> set b'" "set l \<subseteq> set l'" using r(5,6) by auto
    moreover have "\<forall>x \<in> set (e # es).
           InterestLookup (Term (snd x)) (LendingToken (snd x)) (Interest (snd x)) (Side (snd x))
             \<in> set ?all \<and>
           (\<exists>a. \<lparr>interest = Interest (snd x), amount = a\<rparr> \<in> set b' \<union> set l')"
      using r(5,7) by auto
    ultimately show ?thesis by blast
  next
    case False
    with Cons.prems g have "ordersLoop env es b (l @ [?u]) ?s2 = (b', l', s')"
      by (simp add: Let_def)
    from Cons.IH [OF this] obtain es' where
      r: "trace s' = trace ?s2 @ es'" "Lock \<notin> set es'" "Unlock \<notin> set es'"
         "bulkLendingOrders s' = bulkLendingOrders ?s2"
         "set b \<subseteq> set b'" "set (l @ [?u]) \<subseteq> set l'"
         "\<forall>x \<in> set es.
           InterestLookup (Term (snd x)) (LendingToken (snd x)) (Interest (snd x)) (Side (snd x))
             \<in> set es' \<and>
           (\<exists>a. \<lparr>interest = Interest (snd x), amount = a\<rparr> \<in> set b' \<union> set l')"
      by blast
    let ?all = "InterestLookup (Term ?o) (LendingToken ?o) (Interest ?o) (Side ?o) # l0 @ es'"
    have "trace s' = trace s @ ?all" using r(1) l0(1) by simp
    moreover have "Lock \<notin> set ?all" "Unlock \<notin> set ?all" using r l0 by auto
    moreover have "bulkLendingOrders s' = bulkLendingOrders s" using r(4) b2 by simp
    moreover have "set b \<subseteq> set b'" "set l \<subseteq> set l'" using r(5,6) by auto
    moreover have "\<forall>x \<in> set (e # es).
           InterestLookup (Term (snd x)) (LendingToken (snd x)) (Interest (snd x)) (Side (snd x))
             \<in> set ?all \<and>
           (\<exists>a. \<lparr>interest = Interest (snd x), amount = a\<rparr> \<in> set b' \<union> set l')"
      using r(6,7) by auto
    ultimately show ?thesis by blast
  qed
qed


lemma channelsLoop_effects:
  "\<exists>es. trace (channelsLoop env chans s) = trace s @ es \<and> Lock \<notin> set es \<and> Unlock \<notin> set es \<and>
        bulkLendingOrders (channelsLoop env chans s) = bulkLendingOrders s \<and>
        (\<forall>e \<in> set chans. \<forall>x \<in> set (snd e).
           InterestLookup (Term (snd x)) (LendingToken (snd x)) (Interest (snd x)) (Side (snd x))
             \<in> set es \<and>
           (\<exists>book a. Broadcast (fst e) book \<in> set es \<and>
              \<lparr>interest = Interest (snd x), amount = a\<rparr> \<in> set (Borrow book) \<union> set (Lend book)))"
proof (induction chans arbitrary: s)
  case Nil
  then show ?case by simp
next
  case (Cons e chans)
  show ?case
  proof (cases "snd e = []")
    case True
    then have "channelsLoop env (e # chans) s = channelsLoop env chans s"
      by (simp add: Let_def)
    with Cons.IH [of s] True show ?thesis by auto
  next
    case False
    obtain b l s1 where ol: "ordersLoop env (snd e) [] [] s = (b, l, s1)"
      by (cases "ordersLoop env (snd e) [] [] s") auto
    let ?book = "\<lparr>Name = fst e, Borrow = b, Lend = l\<rparr>"
    let ?s2 = "emit (Broadcast (fst e) ?book) s1"
    have step: "channelsLoop env (e # chans) s = channelsLoop env chans ?s2"
      using False ol by (simp add: Let_def)
    from ordersLoop_effects [OF ol] obtain es1 where
      o: "trace s1 = trace s @ es1" "Lock \<notin> set es1" "Unlock \<notin> set es1"
         "bulkLendingOrders s1 = bulkLendingOrders s"
         "\<forall>x \<in> set (snd e).
           InterestLookup (Term (snd x)) (LendingToken (snd x)) (Interest (snd x)) (Side (snd x))
             \<in> set es1 \<and>
           (\<exists>a. \<lparr>interest = Interest (snd x), amount = a\<rparr> \<in> set b \<union> set l)"
      by blast
    from Cons.IH [of ?s2] obtain es2 where
      r: "trace (channelsLoop env chans ?s2) = trace ?s2 @ es2" "Lock \<notin> set es2" "Unlock \<notin> set es2"
         "bulkLendingOrders (channelsLoop env chans ?s2) = bulkLendingOrders ?s2"
         "\<forall>e \<in> set chans. \<forall>x \<in> set (snd e).
           InterestLookup (Term (snd x)) (LendingToken (snd x)) (Interest (snd x)) (Side (snd x))
             \<in> set es2 \<and>
           (\<exists>book a. Broadcast (fst e) book \<in> set es2 \<and>
              \<lparr>interest = Interest (snd x), amount = a\<rparr> \<in> set (Borrow book) \<union> set (Lend book))"
      by blast
    let ?all = "es1 @ Broadcast (fst e) ?book # es2"
    have t: "trace (channelsLoop env (e # chans) s) = trace s @ ?all"
      using step r(1) o(1) by simp
    have nl: "Lock \<notin> set ?all" "Unlock \<notin> set ?all"
      using o(2,3) r(2,3) by auto
    have bk: "bulkLendingOrders (channelsLoop env (e # chans) s) = bulkLendingOrders s"
      using step r(4) o(4) by simp
    have hd: "\<forall>x \<in> set (snd e).
           InterestLookup (Term (snd x)) (LendingToken (snd x)) (Interest (snd x)) (Side (snd x))
             \<in> set ?all \<and>
           (\<exists>book a. Broadcast (fst e) book \<in> set ?all \<and>
              \<lparr>interest = Interest (snd x), amount = a\<rparr> \<in> set (Borrow book) \<union> set (Lend book))"
    proof
      fix x assume x: "x \<in> set (snd e)"
      with o(5) obtain a where
        "InterestLookup (Term (snd x)) (LendingToken (snd x)) (Interest (snd x)) (Side (snd x)) \<in> set es1"
        "\<lparr>interest = Interest (snd x), amount = a\<rparr> \<in> set b \<union> set l"
        by blast
      then show "InterestLookup (Term (snd x)) (LendingToken (snd x)) (Interest (snd x)) (Side (snd x))
             \<in> set ?all \<and>
           (\<exists>book a. Broadcast (fst e) book \<in> set ?all \<and>
              \<lparr>interest = Interest (snd x), amount = a\<rparr> \<in> set (Borrow book) \<union> set (Lend book))"
        by (intro conjI exI [of _ ?book] exI [of _ a]) simp_all
    qed
    have tl: "\<forall>e' \<in> set chans. \<forall>x \<in> set (snd e').
           InterestLookup (Term (snd x)) (LendingToken (snd x)) (Interest (snd x)) (Side (snd x))
             \<in> set ?all \<and>
           (\<exists>book a. Broadcast (fst e') book \<in> set ?all \<and>
              \<lparr>interest = Interest (snd x), amount = a\<rparr> \<in> set (Borrow book) \<union> set (Lend book))"
    proof (intro ballI)
      fix e' x assume "e' \<in> set chans" "x \<in> set (snd e')"
      with r(5) obtain book a where
        "InterestLookup (Term (snd x)) (LendingToken (snd x)) (Interest (snd x)) (Side (snd x)) \<in> set es2"
        "Broadcast (fst e') book \<in> set es2"
        "\<lparr>interest = Interest (snd x), amount = a\<rparr> \<in> set (Borrow book) \<union> set (Lend book)"
        by blast
      then show "InterestLookup (Term (snd x)) (LendingToken (snd x)) (Interest (snd x)) (Side (snd x))
             \<in> set ?all \<and>
           (\<exists>book a. Broadcast (fst e') book \<in> set ?all \<and>
              \<lparr>interest = Interest (snd x), amount = a\<rparr> \<in> set (Borrow book) \<union> set (Lend book))"
        by (intro conjI exI [of _ book] exI [of _ a]) simp_all
    qed
    from hd tl have "\<forall>e' \<in> set (e # chans). \<forall>x \<in> set (snd e').
           InterestLookup (Term (snd x)) (LendingToken (snd x)) (Interest (snd x)) (Side (snd x))
             \<in> set ?all \<and>
           (\<exists>book a. Broadcast (fst e') book \<in> set ?all \<and>
              \<lparr>interest = Interest (snd x), amount = a\<rparr> \<in> set (Borrow book) \<union> set (Lend book))"
      by simp
    with t nl bk show ?thesis by blast
  qed
qed

lemma flush_effects:
  "\<exists>mid. trace (processBulkLendingOrders env s) = trace s @ Lock # mid @ [Unlock] \<and>
         Lock \<notin> set mid \<and> Unlock \<notin> set mid \<and>
         bulkLendingOrders (processBulkLendingOrders env s) = [] \<and>
         (\<forall>e \<in> set (bulkLendingOrders s). \<forall>x \<in> set (snd e).
            InterestLookup (Term (snd x)) (LendingToken (snd x)) (Interest (snd x)) (Side (snd x))
              \<in> set mid \<and>
            (\<exists>book a. Broadcast (fst e) book \<in> set mid \<and>
               \<lparr>interest = Interest (snd x), amount = a\<rparr> \<in> set (Borrow book) \<union> set (Lend book)))"
proof -
  from channelsLoop_effects [of env "bulkLendingOrders s" "emit Lock s"]
  obtain mid where
    m: "trace (channelsLoop env (bulkLendingOrders s) (emit Lock s)) = trace (emit Lock s) @ mid"
       "Lock \<notin> set mid" "Unlock \<notin> set mid"
       "\<forall>e \<in> set (bulkLendingOrders s). \<forall>x \<in> set (snd e).
            InterestLookup (Term (snd x)) (LendingToken (snd x)) (Interest (snd x)) (Side (snd x))
              \<in> set mid \<and>
            (\<exists>book a. Broadcast (fst e) book \<in> set mid \<and>
               \<lparr>interest = Interest (snd x), amount = a\<rparr> \<in> set (Borrow book) \<union> set (Lend book))"
    by blast
  have "trace (processBulkLendingOrders env s) = trace s @ Lock # mid @ [Unlock]"
    using m(1) by (simp add: processBulkLendingOrders_def Let_def emit_def)
  moreover have "bulkLendingOrders (processBulkLendingOrders env s) = []"
    by (simp add: processBulkLendingOrders_def Let_def)
  ultimately show ?thesis using m(2,3,4) by blast
qed

text \<open>
  Claim C5, as amended. A flush takes the lock as its first effect and releases it as
  its last, with no release in between: every storage volume lookup for a pending
  order and every broadcast of a channel snapshot happens while the lock is held. The
  flush leaves the buffer empty.
\<close>

theorem flush_holds_lock:
  "\<exists>mid. trace (processBulkLendingOrders env s) = trace s @ Lock # mid @ [Unlock] \<and>
         Lock \<notin> set mid \<and> Unlock \<notin> set mid \<and>
         bulkLendingOrders (processBulkLendingOrders env s) = [] \<and>
         (\<forall>e \<in> set (bulkLendingOrders s). \<forall>x \<in> set (snd e).
            InterestLookup (Term (snd x)) (LendingToken (snd x)) (Interest (snd x)) (Side (snd x))
              \<in> set mid \<and>
            (\<exists>book a. Broadcast (fst e) book \<in> set mid \<and>
               \<lparr>interest = Interest (snd x), amount = a\<rparr> \<in> set (Borrow book) \<union> set (Lend book)))"
  by (rule flush_effects)

lemmas flush_eval = processBulkLendingOrders_def Let_def emit_def env0_def order0_def pending0_def BORROW_def

text \<open>C5, an instance: the flush of a buffer holding one borrow order.\<close>

theorem flush_holds_lock_witness:
  "\<exists>mid. trace (processBulkLendingOrders env0 pending0) = Lock # mid @ [Unlock] \<and>
         InterestLookup 60 ''0xT1'' 7 ''BORROW'' \<in> set mid \<and>
         (\<exists>book. Broadcast ''0xT1::60'' book \<in> set mid) \<and>
         bulkLendingOrders (processBulkLendingOrders env0 pending0) = []"
proof -
  from flush_holds_lock [of env0 pending0] obtain mid where
    m: "trace (processBulkLendingOrders env0 pending0) = trace pending0 @ Lock # mid @ [Unlock]"
       "bulkLendingOrders (processBulkLendingOrders env0 pending0) = []"
       "\<forall>e \<in> set (bulkLendingOrders pending0). \<forall>x \<in> set (snd e).
            InterestLookup (Term (snd x)) (LendingToken (snd x)) (Interest (snd x)) (Side (snd x))
              \<in> set mid \<and>
            (\<exists>book a. Broadcast (fst e) book \<in> set mid \<and>
               \<lparr>interest = Interest (snd x), amount = a\<rparr> \<in> set (Borrow book) \<union> set (Lend book))"
    by blast
  from m(3) have "InterestLookup 60 ''0xT1'' 7 ''BORROW'' \<in> set mid"
    and "\<exists>book. Broadcast ''0xT1::60'' book \<in> set mid"
    by (auto simp: pending0_def order0_def)
  with m(1,2) show ?thesis by (auto simp: pending0_def)
qed

text \<open>
  C5 as stated fails: in the flush of a buffer holding one order, the volume lookup
  and the broadcast both come between \<open>Lock\<close> and \<open>Unlock\<close>.
\<close>

theorem flush_io_under_lock_counterexample:
  "trace (processBulkLendingOrders env0 pending0) =
     [Lock, InterestLookup 60 ''0xT1'' 7 ''BORROW'',
      Broadcast ''0xT1::60''
        \<lparr>Name = ''0xT1::60'', Borrow = [\<lparr>interest = 7, amount = 100\<rparr>], Lend = []\<rparr>,
      Unlock] \<and>
   ioWhileLocked False (trace (processBulkLendingOrders env0 pending0))"
  by (simp add: flush_eval)


lemma unknown_not_ERROR: "status \<notin> set dispatchTable \<Longrightarrow> status \<noteq> ERROR_STATUS"
  by (auto simp: dispatchTable_def)

lemma dispatch_unknown:
  "ResStatus res \<notin> set dispatchTable \<Longrightarrow> dispatch env res s = Inr s"
  by (simp add: dispatchTable_def dispatch_def handleEngineUnknownMessage_def)

text \<open>
  Claim C4, as amended. Handling a response with a non-nil order whose status matches
  no entry of the dispatch table returns a nil error. Like every response whose status
  is not \<open>ERROR\<close>, it is stored in the bulk buffer, and the next flush broadcasts a
  snapshot of its channel with an entry at its interest rate. What the handler of an
  unrecognised status does itself is not part of the statement.
\<close>

theorem unknown_status_buffered:
  assumes "status \<notin> set dispatchTable"
  shows "\<exists>s' mid book a.
           HandleLendingOrderResponse env \<lparr>ResStatus = status, ResLendingOrder = Some o'\<rparr> s
             = Inr (s', None) \<and>
           map_of (bulkOf s' (GetLendingOrderBookChannelID env (Term o') (LendingToken o'))) (Hash o')
             = Some o' \<and>
           trace (processBulkLendingOrders env s') = trace s' @ Lock # mid @ [Unlock] \<and>
           Broadcast (GetLendingOrderBookChannelID env (Term o') (LendingToken o')) book \<in> set mid \<and>
           \<lparr>interest = Interest o', amount = a\<rparr> \<in> set (Borrow book) \<union> set (Lend book)"
proof -
  let ?res = "\<lparr>ResStatus = status, ResLendingOrder = Some o'\<rparr>"
  let ?cid = "GetLendingOrderBookChannelID env (Term o') (LendingToken o')"
  let ?inner = "AList.update (Hash o') o' (bulkOf s ?cid)"
  let ?s' = "s\<lparr>trace := trace s @ [Lock, Unlock],
               bulkLendingOrders := AList.update ?cid ?inner (bulkLendingOrders s)\<rparr>"
  have d: "dispatch env ?res s = Inr s"
    using assms by (simp add: dispatch_unknown)
  have e: "ResStatus ?res \<noteq> ERROR_STATUS"
    using unknown_not_ERROR [OF assms] by simp
  have "ResLendingOrder ?res = Some o'" by simp
  from HandleLendingOrderResponse_eq [OF d e this]
  have h: "HandleLendingOrderResponse env ?res s = Inr (?s', None)" .
  have b: "bulkOf ?s' ?cid = ?inner"
    by (simp add: bulkOf_def update_conv')
  then have l: "map_of (bulkOf ?s' ?cid) (Hash o') = Some o'"
    by (simp add: update_conv')
  have in1: "(?cid, ?inner) \<in> set (bulkLendingOrders ?s')"
    by (simp add: in_set_update)
  have in2: "(Hash o', o') \<in> set ?inner"
    by (rule in_set_update)
  from flush_effects [of env ?s'] obtain mid where
    m: "trace (processBulkLendingOrders env ?s') = trace ?s' @ Lock # mid @ [Unlock]"
       "\<forall>e \<in> set (bulkLendingOrders ?s'). \<forall>x \<in> set (snd e).
            InterestLookup (Term (snd x)) (LendingToken (snd x)) (Interest (snd x)) (Side (snd x))
              \<in> set mid \<and>
            (\<exists>book a. Broadcast (fst e) book \<in> set mid \<and>
               \<lparr>interest = Interest (snd x), amount = a\<rparr> \<in> set (Borrow book) \<union> set (Lend book))"
    by blast
  from m(2) in1 in2 obtain book a where
    "Broadcast ?cid book \<in> set mid"
    "\<lparr>interest = Interest o', amount = a\<rparr> \<in> set (Borrow book) \<union> set (Lend book)"
    by fastforce
  with h l m(1) show ?thesis by blast
qed


text \<open>C4, an instance: the sample order under the unknown status \<open>FOO\<close>.\<close>

theorem unknown_status_buffered_witness:
  "\<exists>s' mid book a.
     HandleLendingOrderResponse env0 \<lparr>ResStatus = ''FOO'', ResLendingOrder = Some order0\<rparr>
       NewLendingOrderService = Inr (s', None) \<and>
     map_of (bulkOf s' ''0xT1::60'') ''0xH1'' = Some order0 \<and>
     trace (processBulkLendingOrders env0 s') = trace s' @ Lock # mid @ [Unlock] \<and>
     Broadcast ''0xT1::60'' book \<in> set mid \<and>
     \<lparr>interest = 7, amount = a\<rparr> \<in> set (Borrow book) \<union> set (Lend book)"
proof -
  have h: "''FOO'' \<notin> set dispatchTable"
    by (simp add: dispatchTable_def status_defs)
  from unknown_status_buffered [OF h, of env0 order0 NewLendingOrderService]
  show ?thesis
    by (simp add: env0_def order0_def NewLendingOrderService_def)
qed

text \<open>
  C4 as stated fails: the response with the unknown status \<open>FOO\<close> leaves its order in
  the bulk buffer, and the next flush broadcasts it.
\<close>

theorem unknown_status_buffered_counterexample:
  "HandleLendingOrderResponse env0 \<lparr>ResStatus = ''FOO'', ResLendingOrder = Some order0\<rparr>
     NewLendingOrderService = Inr (pending0\<lparr>trace := [Lock, Unlock]\<rparr>, None) \<and>
   trace (processBulkLendingOrders env0 (pending0\<lparr>trace := [Lock, Unlock]\<rparr>)) =
     [Lock, Unlock, Lock, InterestLookup 60 ''0xT1'' 7 ''BORROW'',
      Broadcast ''0xT1::60''
        \<lparr>Name = ''0xT1::60'', Borrow = [\<lparr>interest = 7, amount = 100\<rparr>], Lend = []\<rparr>,
      Unlock]"
  by (simp add: service_eval flush_eval)









end
